theory Spec2Isabelle
  imports Complex_Main "HOL-Library.Multiset"
begin

section \<open>Values and errors\<close>

text \<open>
  The development embeds \<^verbatim>\<open>dedalus/core/spaces.py\<close> and \<^verbatim>\<open>dedalus/core/domain.py\<close>.
  Python floats are modelled as exact reals (the one product whose rounding decides a
  result, in \<^verbatim>\<open>grid_shape\<close>, is also modelled as a parameter), Python ints as \<open>int\<close>, global axis indices
  (which count the axes of a distributor from 0) as \<open>nat\<close>. Every exception of the
  source is a value \<open>Inl e\<close> of the result type \<open>error + 'a\<close>; \<open>AttributeMismatchError\<close>
  and \<open>InvalidScaleError\<close> are the errors the spec names for the two collaborators whose
  code is not among the sources.
\<close>

datatype error =
    ValueError string
  | ZeroDivisionError
  | IndexError
  | TypeError
  | AttributeMismatchError
  | InvalidScaleError

text \<open>
  The dynamically typed values that reach the coordinate maps and leave \<^verbatim>\<open>grids\<close>: the
  implicit result \<^verbatim>\<open>None\<close>, a string token, a number, a one-dimensional numpy array and
  a tuple.
\<close>

datatype pyval =
    PyNone
  | PyStr string
  | PyFloat real
  | NdArray "real list"
  | PyTuple "pyval list"

text \<open>\<^verbatim>\<open>int(x)\<close> of a float: truncation towards zero.\<close>

definition py_int :: "real \<Rightarrow> int" where
  "py_int x = (if 0 \<le> x then \<lfloor>x\<rfloor> else \<lceil>x\<rceil>)"

text \<open>
  Indexing a tuple or list with a Python int: an index in \<open>[0, len)\<close> reads that position,
  an index in \<open>[-len, 0)\<close> reads position \<open>len + i\<close>, anything else raises \<^verbatim>\<open>IndexError\<close>.
\<close>

definition py_index :: "'a list \<Rightarrow> int \<Rightarrow> error + 'a" where
  "py_index xs i =
     (if 0 \<le> i \<and> i < int (length xs) then Inr (xs ! nat i)
      else if i < 0 \<and> - int (length xs) \<le> i then Inr (xs ! nat (int (length xs) + i))
      else Inl IndexError)"

section \<open>AffineCOV\<close>

record AffineCOV =
  native_bounds :: "real \<times> real"
  problem_bounds :: "real \<times> real"
  native_left :: real
  native_right :: real
  native_length :: real
  problem_left :: real
  problem_right :: real
  problem_length :: real
  jacobian :: real
  problem_center :: real
  native_center :: real
  stretch :: real

text \<open>
  \<^verbatim>\<open>AffineCOV.__init__\<close>. The two quotients \<^verbatim>\<open>native_length / problem_length\<close> (jacobian)
  and \<^verbatim>\<open>problem_length / native_length\<close> (stretch) are divisions of Python numbers and
  raise \<^verbatim>\<open>ZeroDivisionError\<close> on a zero divisor, in the order of the source.
\<close>

definition AffineCOV_init :: "real \<times> real \<Rightarrow> real \<times> real \<Rightarrow> error + AffineCOV" where
  "AffineCOV_init nb pb =
     (let nl = fst nb; nr = snd nb; nlen = nr - nl;
          pl = fst pb; pr = snd pb; plen = pr - pl
      in if plen = 0 then Inl ZeroDivisionError
         else if nlen = 0 then Inl ZeroDivisionError
         else Inr \<lparr> native_bounds = nb, problem_bounds = pb,
                    native_left = nl, native_right = nr, native_length = nlen,
                    problem_left = pl, problem_right = pr, problem_length = plen,
                    jacobian = nlen / plen,
                    problem_center = (pl + pr) / 2,
                    native_center = (nl + nr) / 2,
                    stretch = plen / nlen \<rparr>)"

text \<open>
  \<^verbatim>\<open>AffineCOV.problem_coord\<close>. A string that is none of the three tokens falls through
  the \<^verbatim>\<open>if/elif\<close> chain, and the method returns \<^verbatim>\<open>None\<close>. A number is mapped by scalar
  arithmetic (a zero \<^verbatim>\<open>native_length\<close> raises), an array elementwise; \<^verbatim>\<open>None\<close> and tuples do
  not support the subtraction. On an array numpy divides without raising; the lengths of
  a map that \<open>AffineCOV_init\<close> returned are not zero, so the quotient of the model is the
  quotient of the source there.
\<close>

fun problem_coord :: "AffineCOV \<Rightarrow> pyval \<Rightarrow> error + pyval" where
  "problem_coord cov (PyStr s) =
     (if s = ''left'' then Inr (PyFloat (problem_left cov))
      else if s = ''right'' then Inr (PyFloat (problem_right cov))
      else if s = ''center'' then Inr (PyFloat (problem_center cov))
      else Inr PyNone)"
| "problem_coord cov (PyFloat x) =
     (if native_length cov = 0 then Inl ZeroDivisionError
      else Inr (PyFloat (problem_left cov
                  + (x - native_left cov) / native_length cov * problem_length cov)))"
| "problem_coord cov (NdArray xs) =
     Inr (NdArray (map (\<lambda>x. problem_left cov
                  + (x - native_left cov) / native_length cov * problem_length cov) xs))"
| "problem_coord cov PyNone = Inl TypeError"
| "problem_coord cov (PyTuple vs) = Inl TypeError"

text \<open>\<^verbatim>\<open>AffineCOV.native_coord\<close>, the same chain in the other direction.\<close>

fun native_coord :: "AffineCOV \<Rightarrow> pyval \<Rightarrow> error + pyval" where
  "native_coord cov (PyStr s) =
     (if s = ''left'' then Inr (PyFloat (native_left cov))
      else if s = ''right'' then Inr (PyFloat (native_right cov))
      else if s = ''center'' then Inr (PyFloat (native_center cov))
      else Inr PyNone)"
| "native_coord cov (PyFloat y) =
     (if problem_length cov = 0 then Inl ZeroDivisionError
      else Inr (PyFloat (native_left cov
                  + (y - problem_left cov) / problem_length cov * native_length cov)))"
| "native_coord cov (NdArray ys) =
     Inr (NdArray (map (\<lambda>y. native_left cov
                  + (y - problem_left cov) / problem_length cov * native_length cov) ys))"
| "native_coord cov PyNone = Inl TypeError"
| "native_coord cov (PyTuple vs) = Inl TypeError"

section \<open>Distributor\<close>

text \<open>
  Modelled from the spec: the Distributor (\<^verbatim>\<open>dedalus/core/distributor.py\<close> is not among
  the sources). The spec gives it an axis count \<^verbatim>\<open>dim\<close>, a list \<^verbatim>\<open>constant_spaces\<close> of
  default Constant spaces, one per axis, and \<^verbatim>\<open>remedy_scales\<close>. \<open>dist_id\<close> stands for
  the identity of the object.
\<close>

record distributor =
  dist_id :: nat
  dim :: nat

text \<open>A scale argument: one scalar for all axes, or an explicit per-axis sequence.\<close>

datatype scales_arg = ScalarScale real | SeqScales "real list"

text \<open>
  Modelled from the spec: \<^verbatim>\<open>Distributor.remedy_scales\<close> turns the argument into a per-axis
  tuple of positive scales of length \<^verbatim>\<open>dim\<close> and rejects non-positive or malformed
  arguments. The spec does not say what \<^verbatim>\<open>None\<close> is normalised to, so \<^verbatim>\<open>None\<close> is not
  among the arguments of the model.
\<close>

definition remedy_scales :: "distributor \<Rightarrow> scales_arg \<Rightarrow> error + real list" where
  "remedy_scales d sc =
     (case sc of
        ScalarScale s \<Rightarrow>
          if s \<le> 0 then Inl InvalidScaleError else Inr (replicate (dim d) s)
      | SeqScales ss \<Rightarrow>
          if length ss \<noteq> dim d \<or> list_ex (\<lambda>s. s \<le> 0) ss then Inl InvalidScaleError
          else Inr ss)"

section \<open>Spaces\<close>

text \<open>
  The instance attributes \<^verbatim>\<open>Interval.__init__\<close> sets. \<open>size_I\<close> and \<open>dist_I\<close> are the
  attributes \<^verbatim>\<open>size\<close> and \<^verbatim>\<open>dist\<close>.
\<close>

record interval =
  name :: string
  size_I :: int
  shape :: "int list"
  bounds :: "real \<times> real"
  dist_I :: distributor
  axis :: nat
  axes :: "nat list"
  dealias :: real
  COV :: AffineCOV

text \<open>
  An object of one of the four concrete classes, with the instance attributes of its
  class: a Constant holds \<^verbatim>\<open>dist\<close> and \<^verbatim>\<open>axes\<close>, a PeriodicInterval and a ParityInterval
  the interval attributes and \<^verbatim>\<open>kmax\<close>, a FiniteInterval the interval attributes and
  \<^verbatim>\<open>a\<close>, \<^verbatim>\<open>b\<close>.
\<close>

datatype space =
    Constant distributor "nat list"
  | PeriodicInterval interval int
  | ParityInterval interval int
  | FiniteInterval interval real real

text \<open>Attribute lookup on a space object; class attributes are the constants of the source.\<close>

fun space_axes :: "space \<Rightarrow> nat list" where
  "space_axes (Constant d ax) = ax"
| "space_axes (PeriodicInterval iv k) = axes iv"
| "space_axes (ParityInterval iv k) = axes iv"
| "space_axes (FiniteInterval iv a b) = axes iv"

fun space_dist :: "space \<Rightarrow> distributor" where
  "space_dist (Constant d ax) = d"
| "space_dist (PeriodicInterval iv k) = dist_I iv"
| "space_dist (ParityInterval iv k) = dist_I iv"
| "space_dist (FiniteInterval iv a b) = dist_I iv"

fun space_group_shape :: "space \<Rightarrow> int list" where
  "space_group_shape (Constant d ax) = [1]"
| "space_group_shape (PeriodicInterval iv k) = [2]"
| "space_group_shape (ParityInterval iv k) = [1]"
| "space_group_shape (FiniteInterval iv a b) = [1]"

fun space_shape :: "space \<Rightarrow> int list" where
  "space_shape (Constant d ax) = [1]"
| "space_shape (PeriodicInterval iv k) = shape iv"
| "space_shape (ParityInterval iv k) = shape iv"
| "space_shape (FiniteInterval iv a b) = shape iv"

text \<open>
  \<^verbatim>\<open>Space.check_shape\<close>: the loop over \<^verbatim>\<open>zip(space_shape, cls.group_shape)\<close> raises at the
  first entry that is not a multiple of its group entry.
\<close>

fun check_shape_loop :: "(int \<times> int) list \<Rightarrow> error + unit" where
  "check_shape_loop [] = Inr ()"
| "check_shape_loop ((ss, gs) # rest) =
     (if gs = 0 then Inl ZeroDivisionError
      else if ss mod gs \<noteq> 0
        then Inl (ValueError ''Space shape must be multiple of group shape.'')
      else check_shape_loop rest)"

definition check_shape :: "int list \<Rightarrow> int list \<Rightarrow> error + unit" where
  "check_shape cls_group_shape space_shp = check_shape_loop (zip space_shp cls_group_shape)"

text \<open>\<^verbatim>\<open>Constant.__init__\<close>.\<close>

definition Constant_init :: "distributor \<Rightarrow> nat \<Rightarrow> space" where
  "Constant_init d ax = Constant d [ax]"

text \<open>
  \<^verbatim>\<open>Interval.__init__\<close>, with the class attributes \<^verbatim>\<open>native_bounds\<close> and \<^verbatim>\<open>group_shape\<close> of
  the subclass as its first two arguments: the shape check comes first, the affine map
  last.
\<close>

definition Interval_init ::
  "real \<times> real \<Rightarrow> int list \<Rightarrow> string \<Rightarrow> int \<Rightarrow> real \<times> real \<Rightarrow> distributor \<Rightarrow> nat \<Rightarrow> real
     \<Rightarrow> error + interval" where
  "Interval_init cls_native_bounds cls_group_shape nm sz bnds d ax dl =
     (case check_shape cls_group_shape [sz] of
        Inl e \<Rightarrow> Inl e
      | Inr u \<Rightarrow>
          (case AffineCOV_init cls_native_bounds bnds of
             Inl e \<Rightarrow> Inl e
           | Inr cov \<Rightarrow>
               Inr \<lparr> name = nm, size_I = sz, shape = [sz], bounds = bnds, dist_I = d,
                     axis = ax, axes = [ax], dealias = dl, COV = cov \<rparr>))"

text \<open>\<^verbatim>\<open>PeriodicInterval.__init__\<close>: native bounds \<open>(0, 2 pi)\<close>, group shape \<open>(2,)\<close>.\<close>

definition PeriodicInterval_init ::
  "string \<Rightarrow> int \<Rightarrow> real \<times> real \<Rightarrow> distributor \<Rightarrow> nat \<Rightarrow> real \<Rightarrow> error + space" where
  "PeriodicInterval_init nm sz bnds d ax dl =
     (case Interval_init (0, 2 * pi) [2] nm sz bnds d ax dl of
        Inl e \<Rightarrow> Inl e
      | Inr iv \<Rightarrow> Inr (PeriodicInterval iv ((size_I iv - 1) div 2)))"

text \<open>\<^verbatim>\<open>ParityInterval.__init__\<close>: native bounds \<open>(0, pi)\<close>, group shape \<open>(1,)\<close>.\<close>

definition ParityInterval_init ::
  "string \<Rightarrow> int \<Rightarrow> real \<times> real \<Rightarrow> distributor \<Rightarrow> nat \<Rightarrow> real \<Rightarrow> error + space" where
  "ParityInterval_init nm sz bnds d ax dl =
     (case Interval_init (0, pi) [1] nm sz bnds d ax dl of
        Inl e \<Rightarrow> Inl e
      | Inr iv \<Rightarrow> Inr (ParityInterval iv (size_I iv - 1)))"

text \<open>\<^verbatim>\<open>FiniteInterval.__init__\<close>: native bounds \<open>(-1, 1)\<close>, group shape \<open>(1,)\<close>.\<close>

definition FiniteInterval_init ::
  "real \<Rightarrow> real \<Rightarrow> string \<Rightarrow> int \<Rightarrow> real \<times> real \<Rightarrow> distributor \<Rightarrow> nat \<Rightarrow> real \<Rightarrow> error + space" where
  "FiniteInterval_init a b nm sz bnds d ax dl =
     (case Interval_init (- 1, 1) [1] nm sz bnds d ax dl of
        Inl e \<Rightarrow> Inl e
      | Inr iv \<Rightarrow> Inr (FiniteInterval iv a b))"

text \<open>
  \<^verbatim>\<open>Space.grid_shape\<close>, inherited by the three interval classes (\<^verbatim>\<open>dim\<close> is 1): the slice
  \<^verbatim>\<open>scales[axis:axis+dim]\<close> of the remedied scales, zipped with the shape, each product
  converted by \<^verbatim>\<open>int\<close>.
\<close>

definition Space_grid_shape :: "interval \<Rightarrow> scales_arg \<Rightarrow> error + int list" where
  "Space_grid_shape iv scales =
     (case remedy_scales (dist_I iv) scales of
        Inl e \<Rightarrow> Inl e
      | Inr ss \<Rightarrow>
          Inr (map (\<lambda>(s, n). py_int (s * real_of_int n))
                 (zip (take 1 (drop (axis iv) ss)) (shape iv))))"

text \<open>\<^verbatim>\<open>grid_shape\<close> by class: \<^verbatim>\<open>Constant.grid_shape\<close> returns the class attribute \<^verbatim>\<open>shape\<close>.\<close>

fun grid_shape :: "space \<Rightarrow> scales_arg \<Rightarrow> error + int list" where
  "grid_shape (Constant d ax) scale = Inr [1]"
| "grid_shape (PeriodicInterval iv k) scales = Space_grid_shape iv scales"
| "grid_shape (ParityInterval iv k) scales = Space_grid_shape iv scales"
| "grid_shape (FiniteInterval iv a b) scales = Space_grid_shape iv scales"

text \<open>
  The product \<^verbatim>\<open>s*n\<close> of \<^verbatim>\<open>Space.grid_shape\<close> multiplies a float by an int: Python converts
  the int to a double and rounds the product of the two doubles to the nearest double.
  \<open>Space_grid_shape\<close> above takes the product in exact arithmetic, which is the double
  product wherever the exact product is a double (as \<open>1 * n\<close> below \<open>2 ^ 53\<close>).
  \<open>Space_grid_shape_fl\<close> and \<open>grid_shape_fl\<close> are the same two methods with the product of
  the language as a parameter \<open>fmul\<close>: what is proved of them for every \<open>fmul\<close> holds of
  the double product, whatever it rounds to.
\<close>

definition Space_grid_shape_fl ::
  "(real \<Rightarrow> int \<Rightarrow> real) \<Rightarrow> interval \<Rightarrow> scales_arg \<Rightarrow> error + int list" where
  "Space_grid_shape_fl fmul iv scales =
     (case remedy_scales (dist_I iv) scales of
        Inl e \<Rightarrow> Inl e
      | Inr ss \<Rightarrow>
          Inr (map (\<lambda>(s, n). py_int (fmul s n))
                 (zip (take 1 (drop (axis iv) ss)) (shape iv))))"

fun grid_shape_fl :: "(real \<Rightarrow> int \<Rightarrow> real) \<Rightarrow> space \<Rightarrow> scales_arg \<Rightarrow> error + int list" where
  "grid_shape_fl fmul (Constant d ax) scale = Inr [1]"
| "grid_shape_fl fmul (PeriodicInterval iv k) scales = Space_grid_shape_fl fmul iv scales"
| "grid_shape_fl fmul (ParityInterval iv k) scales = Space_grid_shape_fl fmul iv scales"
| "grid_shape_fl fmul (FiniteInterval iv a b) scales = Space_grid_shape_fl fmul iv scales"

text \<open>The native grids that \<^verbatim>\<open>grids\<close> builds with \<^verbatim>\<open>np.arange(N)\<close>.\<close>

definition periodic_native_grid :: "int \<Rightarrow> real list" where
  "periodic_native_grid N = map (\<lambda>i. 2 * pi * real i / real_of_int N) [0..<nat N]"

definition parity_native_grid :: "int \<Rightarrow> real list" where
  "parity_native_grid N = map (\<lambda>i. pi * (real i + 1 / 2) / real_of_int N) [0..<nat N]"

text \<open>
  \<^verbatim>\<open>grids\<close> by class. \<open>build_grid\<close> is \<^verbatim>\<open>jacobi.build_grid\<close>, which is not among the sources
  and is a parameter. The periodic and the parity class wrap the transformed grid in a
  one-element tuple; \<^verbatim>\<open>FiniteInterval.grids\<close> returns \<^verbatim>\<open>self.COV.problem_coord(native_grid)\<close>
  as it is.
\<close>

fun grids :: "(int \<Rightarrow> real \<Rightarrow> real \<Rightarrow> real list) \<Rightarrow> space \<Rightarrow> scales_arg \<Rightarrow> error + pyval" where
  "grids build_grid (Constant d ax) scales = Inr (PyTuple [NdArray [0]])"
| "grids build_grid (PeriodicInterval iv k) scales =
     (case grid_shape (PeriodicInterval iv k) scales of
        Inl e \<Rightarrow> Inl e
      | Inr gs \<Rightarrow>
          (case py_index gs 0 of
             Inl e \<Rightarrow> Inl e
           | Inr N \<Rightarrow>
               (case problem_coord (COV iv) (NdArray (periodic_native_grid N)) of
                  Inl e \<Rightarrow> Inl e
                | Inr g \<Rightarrow> Inr (PyTuple [g]))))"
| "grids build_grid (ParityInterval iv k) scales =
     (case grid_shape (ParityInterval iv k) scales of
        Inl e \<Rightarrow> Inl e
      | Inr gs \<Rightarrow>
          (case py_index gs 0 of
             Inl e \<Rightarrow> Inl e
           | Inr N \<Rightarrow>
               (case problem_coord (COV iv) (NdArray (parity_native_grid N)) of
                  Inl e \<Rightarrow> Inl e
                | Inr g \<Rightarrow> Inr (PyTuple [g]))))"
| "grids build_grid (FiniteInterval iv a b) scales =
     (case grid_shape (FiniteInterval iv a b) scales of
        Inl e \<Rightarrow> Inl e
      | Inr gs \<Rightarrow>
          (case py_index gs 0 of
             Inl e \<Rightarrow> Inl e
           | Inr N \<Rightarrow> problem_coord (COV iv) (NdArray (build_grid N a b))))"

section \<open>Domain\<close>

text \<open>
  Modelled from the spec: \<^verbatim>\<open>Distributor.constant_spaces\<close>, the default Constant space of
  every axis, in axis order.
\<close>

definition constant_spaces :: "distributor \<Rightarrow> space list" where
  "constant_spaces d = map (Constant_init d) [0..<dim d]"

text \<open>
  Modelled from the spec: \<^verbatim>\<open>unify_attributes(spaces, 'dist')\<close> (\<^verbatim>\<open>dedalus/tools/general.py\<close>
  is not among the sources) returns the distributor the spaces share and fails when they
  do not share one. An empty list has no distributor to return and fails too.
\<close>

definition unify_attributes_dist :: "space list \<Rightarrow> error + distributor" where
  "unify_attributes_dist spcs =
     (case spcs of
        [] \<Rightarrow> Inl AttributeMismatchError
      | s # rest \<Rightarrow>
          if list_all (\<lambda>t. space_dist t = space_dist s) rest then Inr (space_dist s)
          else Inl AttributeMismatchError)"

text \<open>
  \<^verbatim>\<open>set.intersection(*axes_sets)\<close>: the elements common to all the sets. The source calls
  it on two or more sets only.
\<close>

fun set_intersection :: "nat set list \<Rightarrow> nat set" where
  "set_intersection [] = {}"
| "set_intersection (s # ss) = foldl (\<inter>) s ss"

text \<open>The inner loop \<^verbatim>\<open>for axis in space.axes: full_spaces[axis] = space\<close>.\<close>

fun assign_axes :: "space \<Rightarrow> nat list \<Rightarrow> space list \<Rightarrow> error + space list" where
  "assign_axes spc [] full = Inr full"
| "assign_axes spc (ax # rest) full =
     (if ax < length full then assign_axes spc rest (full[ax := spc]) else Inl IndexError)"

text \<open>The outer loop \<^verbatim>\<open>for space in spaces\<close>.\<close>

fun assign_spaces :: "space list \<Rightarrow> space list \<Rightarrow> error + space list" where
  "assign_spaces [] full = Inr full"
| "assign_spaces (spc # rest) full =
     (case assign_axes spc (space_axes spc) full of
        Inl e \<Rightarrow> Inl e
      | Inr full' \<Rightarrow> assign_spaces rest full')"

text \<open>\<^verbatim>\<open>expand_spaces\<close>.\<close>

definition expand_spaces :: "space list \<Rightarrow> error + space list" where
  "expand_spaces spcs =
     (case unify_attributes_dist spcs of
        Inl e \<Rightarrow> Inl e
      | Inr d \<Rightarrow>
          if length spcs > 1 \<and> set_intersection (map (\<lambda>s. set (space_axes s)) spcs) \<noteq> {}
          then Inl (ValueError ''Overlapping spaces specified.'')
          else assign_spaces spcs (constant_spaces d))"

record domain =
  dist_D :: distributor
  spaces :: "space list"

text \<open>\<^verbatim>\<open>Domain.__init__\<close>: \<^verbatim>\<open>spaces[0]\<close> raises on an empty tuple.\<close>

definition Domain_init :: "space list \<Rightarrow> error + domain" where
  "Domain_init spcs =
     (case spcs of
        [] \<Rightarrow> Inl IndexError
      | s # rest \<Rightarrow> Inr \<lparr> dist_D = space_dist s, spaces = spcs \<rparr>)"

text \<open>
  Construction without the cache: \<^verbatim>\<open>Domain._preprocess_args\<close> replaces the first argument
  by \<^verbatim>\<open>expand_spaces\<close> of it, and \<^verbatim>\<open>__init__\<close> receives the expanded tuple.
\<close>

definition Domain_preprocess_args :: "space list \<Rightarrow> error + space list" where
  "Domain_preprocess_args spcs = expand_spaces spcs"

definition Domain_new :: "space list \<Rightarrow> error + domain" where
  "Domain_new spcs =
     (case Domain_preprocess_args spcs of
        Inl e \<Rightarrow> Inl e
      | Inr full \<Rightarrow> Domain_init full)"

text \<open>
  Modelled from the spec: the instance cache of the metaclass \<^verbatim>\<open>CachedClass\<close>
  (\<^verbatim>\<open>dedalus/tools/cache.py\<close> is not among the sources). The cache is keyed by the
  preprocessed arguments; a hit returns the stored instance, a miss constructs one and
  stores it. An instance is a pair of its object identity and its state.
\<close>

type_synonym instance_cache = "(space list \<times> (nat \<times> domain)) list"

definition Domain_call ::
  "instance_cache \<Rightarrow> space list \<Rightarrow> error + ((nat \<times> domain) \<times> instance_cache)" where
  "Domain_call cache spcs =
     (case Domain_preprocess_args spcs of
        Inl e \<Rightarrow> Inl e
      | Inr key \<Rightarrow>
          (case map_of cache key of
             Some inst \<Rightarrow> Inr (inst, cache)
           | None \<Rightarrow>
               (case Domain_init key of
                  Inl e \<Rightarrow> Inl e
                | Inr dmn \<Rightarrow> Inr ((length cache, dmn), cache @ [(key, (length cache, dmn))]))))"

text \<open>
  The loop shared by \<^verbatim>\<open>group_shape\<close>, \<^verbatim>\<open>global_coeff_shape\<close> and \<^verbatim>\<open>_global_grid_shape\<close>:
  for each \<^verbatim>\<open>(axis, space)\<close> of \<^verbatim>\<open>enumerate(self.spaces)\<close>, the entry at
  \<^verbatim>\<open>subaxis = axis - space.axes[0]\<close> of the tuple the space supplies is stored at
  \<^verbatim>\<open>shape[axis]\<close>. \<open>entry\<close> is the tuple asked of the space, the one difference between
  the three bodies.
\<close>

fun assemble_shape ::
  "(nat \<Rightarrow> space \<Rightarrow> error + int list) \<Rightarrow> (nat \<times> space) list \<Rightarrow> int list \<Rightarrow> error + int list" where
  "assemble_shape entry [] shp = Inr shp"
| "assemble_shape entry ((ax, spc) # rest) shp =
     (case py_index (space_axes spc) 0 of
        Inl e \<Rightarrow> Inl e
      | Inr a0 \<Rightarrow>
          (case entry ax spc of
             Inl e \<Rightarrow> Inl e
           | Inr tup \<Rightarrow>
               (case py_index tup (int ax - int a0) of
                  Inl e \<Rightarrow> Inl e
                | Inr v \<Rightarrow>
                    if ax < length shp then assemble_shape entry rest (shp[ax := v])
                    else Inl IndexError)))"

definition Domain_group_shape :: "domain \<Rightarrow> error + int list" where
  "Domain_group_shape dmn =
     assemble_shape (\<lambda>ax spc. Inr (space_group_shape spc))
       (enumerate 0 (spaces dmn)) (replicate (dim (dist_D dmn)) 0)"

definition Domain_global_coeff_shape :: "domain \<Rightarrow> error + int list" where
  "Domain_global_coeff_shape dmn =
     assemble_shape (\<lambda>ax spc. Inr (space_shape spc))
       (enumerate 0 (spaces dmn)) (replicate (dim (dist_D dmn)) 0)"

text \<open>
  \<^verbatim>\<open>Domain._global_grid_shape\<close> hands each space the single scale \<^verbatim>\<open>scales[axis]\<close>;
  \<^verbatim>\<open>Domain.global_grid_shape\<close> remedies the scales first. \<open>fmul\<close> is the product of the
  language that \<^verbatim>\<open>Space.grid_shape\<close> computes with.
\<close>

definition Domain_global_grid_shape' ::
  "(real \<Rightarrow> int \<Rightarrow> real) \<Rightarrow> domain \<Rightarrow> real list \<Rightarrow> error + int list" where
  "Domain_global_grid_shape' fmul dmn scales =
     assemble_shape
       (\<lambda>ax spc. case py_index scales (int ax) of
                    Inl e \<Rightarrow> Inl e
                  | Inr s \<Rightarrow> grid_shape_fl fmul spc (ScalarScale s))
       (enumerate 0 (spaces dmn)) (replicate (dim (dist_D dmn)) 0)"

definition Domain_global_grid_shape ::
  "(real \<Rightarrow> int \<Rightarrow> real) \<Rightarrow> domain \<Rightarrow> scales_arg \<Rightarrow> error + int list" where
  "Domain_global_grid_shape fmul dmn scales =
     (case remedy_scales (dist_D dmn) scales of
        Inl e \<Rightarrow> Inl e
      | Inr ss \<Rightarrow> Domain_global_grid_shape' fmul dmn ss)"

section \<open>AffineCOV: construction and the two coordinate maps\<close>

text \<open>
  C5. Bounds with equal endpoints, on the native or on the problem side, make the
  construction of the affine map itself fail: \<open>AffineCOV_init\<close> returns an error and no
  map object. The error the spec calls DegenerateIntervalError is, in the source, the
  \<^verbatim>\<open>ZeroDivisionError\<close> of the first quotient with a zero divisor.
\<close>

theorem AffineCOV_init_degenerate:
  "fst nb = snd nb \<or> fst pb = snd pb \<Longrightarrow> AffineCOV_init nb pb = Inl ZeroDivisionError"
  by (auto simp: AffineCOV_init_def Let_def)

theorem AffineCOV_init_degenerate_witness:
  "(fst (0::real, 1::real) = snd (0::real, 1::real) \<or> fst (3::real, 3::real) = snd (3::real, 3::real))
   \<and> AffineCOV_init (0, 1) (3, 3) = Inl ZeroDivisionError"
  using AffineCOV_init_degenerate [of "(0, 1)" "(3, 3)"] by simp

text \<open>
  C6. For a map built from non-degenerate bounds, the two numeric maps are inverse to each
  other in exact arithmetic, and the tokens \<^verbatim>\<open>left\<close>, \<^verbatim>\<open>right\<close>, \<^verbatim>\<open>center\<close> return the
  endpoints and the centre of the target interval.
\<close>

theorem AffineCOV_round_trip:
  "AffineCOV_init nb pb = Inr cov \<Longrightarrow>
     (\<exists>y. problem_coord cov (PyFloat x) = Inr (PyFloat y)
          \<and> native_coord cov (PyFloat y) = Inr (PyFloat x))
   \<and> (\<exists>x'. native_coord cov (PyFloat y') = Inr (PyFloat x')
          \<and> problem_coord cov (PyFloat x') = Inr (PyFloat y'))
   \<and> problem_coord cov (PyStr ''left'') = Inr (PyFloat (fst pb))
   \<and> problem_coord cov (PyStr ''right'') = Inr (PyFloat (snd pb))
   \<and> problem_coord cov (PyStr ''center'') = Inr (PyFloat ((fst pb + snd pb) / 2))
   \<and> native_coord cov (PyStr ''left'') = Inr (PyFloat (fst nb))
   \<and> native_coord cov (PyStr ''right'') = Inr (PyFloat (snd nb))
   \<and> native_coord cov (PyStr ''center'') = Inr (PyFloat ((fst nb + snd nb) / 2))"
proof -
  assume init: "AffineCOV_init nb pb = Inr cov"
  then have n0: "snd nb - fst nb \<noteq> 0" and p0: "snd pb - fst pb \<noteq> 0"
    by (auto simp: AffineCOV_init_def Let_def split: if_splits)
  from init n0 p0 have cov: "cov = \<lparr> native_bounds = nb, problem_bounds = pb,
        native_left = fst nb, native_right = snd nb, native_length = snd nb - fst nb,
        problem_left = fst pb, problem_right = snd pb, problem_length = snd pb - fst pb,
        jacobian = (snd nb - fst nb) / (snd pb - fst pb),
        problem_center = (fst pb + snd pb) / 2,
        native_center = (fst nb + snd nb) / 2,
        stretch = (snd pb - fst pb) / (snd nb - fst nb) \<rparr>"
    by (simp add: AffineCOV_init_def Let_def)
  have there: "\<exists>y. problem_coord cov (PyFloat x) = Inr (PyFloat y)
              \<and> native_coord cov (PyFloat y) = Inr (PyFloat x)"
    using n0 p0 by (simp add: cov)
  have backw: "\<exists>x'. native_coord cov (PyFloat y') = Inr (PyFloat x')
              \<and> problem_coord cov (PyFloat x') = Inr (PyFloat y')"
    using n0 p0 by (simp add: cov)
  have tokens: "problem_coord cov (PyStr ''left'') = Inr (PyFloat (fst pb))"
    "problem_coord cov (PyStr ''right'') = Inr (PyFloat (snd pb))"
    "problem_coord cov (PyStr ''center'') = Inr (PyFloat ((fst pb + snd pb) / 2))"
    "native_coord cov (PyStr ''left'') = Inr (PyFloat (fst nb))"
    "native_coord cov (PyStr ''right'') = Inr (PyFloat (snd nb))"
    "native_coord cov (PyStr ''center'') = Inr (PyFloat ((fst nb + snd nb) / 2))"
    by (simp_all add: cov)
  from there backw tokens show ?thesis by blast
qed

theorem AffineCOV_round_trip_witness:
  "\<exists>cov. AffineCOV_init (- 1, 1) (0, 4) = Inr cov
     \<and> (\<exists>y. problem_coord cov (PyFloat (1 / 2)) = Inr (PyFloat y)
          \<and> native_coord cov (PyFloat y) = Inr (PyFloat (1 / 2)))
     \<and> (\<exists>x'. native_coord cov (PyFloat 3) = Inr (PyFloat x')
          \<and> problem_coord cov (PyFloat x') = Inr (PyFloat 3))
     \<and> problem_coord cov (PyStr ''left'') = Inr (PyFloat 0)
     \<and> problem_coord cov (PyStr ''right'') = Inr (PyFloat 4)
     \<and> problem_coord cov (PyStr ''center'') = Inr (PyFloat 2)
     \<and> native_coord cov (PyStr ''left'') = Inr (PyFloat (- 1))
     \<and> native_coord cov (PyStr ''right'') = Inr (PyFloat 1)
     \<and> native_coord cov (PyStr ''center'') = Inr (PyFloat 0)"
proof -
  obtain cov where init: "AffineCOV_init (- 1, 1) (0, 4) = Inr cov"
    by (simp add: AffineCOV_init_def Let_def)
  from AffineCOV_round_trip [OF init, of "1 / 2" 3] init show ?thesis
    by (intro exI [of _ cov]) simp
qed

text \<open>
  C10. A string other than the three tokens is answered by \<^verbatim>\<open>None\<close> in both directions:
  no error is raised and no coordinate is returned.
\<close>

theorem unknown_token_returns_None:
  "s \<noteq> ''left'' \<Longrightarrow> s \<noteq> ''right'' \<Longrightarrow> s \<noteq> ''center'' \<Longrightarrow>
     problem_coord cov (PyStr s) = Inr PyNone \<and> native_coord cov (PyStr s) = Inr PyNone"
  by simp

theorem unknown_token_returns_None_witness:
  "''middle'' \<noteq> ''left'' \<and> ''middle'' \<noteq> ''right'' \<and> ''middle'' \<noteq> ''center''
   \<and> (\<exists>cov. AffineCOV_init (0, 2 * pi) (0, 1) = Inr cov
        \<and> problem_coord cov (PyStr ''middle'') = Inr PyNone
        \<and> native_coord cov (PyStr ''middle'') = Inr PyNone)"
proof -
  obtain cov where init: "AffineCOV_init (0, 2 * pi) (0, 1) = Inr cov"
    by (simp add: AffineCOV_init_def Let_def)
  have neq: "''middle'' \<noteq> ''left''" "''middle'' \<noteq> ''right''" "''middle'' \<noteq> ''center''"
    by simp_all
  from unknown_token_returns_None [OF neq, of cov] init neq show ?thesis
    by blast
qed

section \<open>Spaces: construction, grid shapes and grids\<close>

lemma Interval_init_Inr:
  "Interval_init nbs gsh nm sz bnds d ax dl = Inr iv \<Longrightarrow>
     check_shape gsh [sz] = Inr () \<and>
     (\<exists>cov. AffineCOV_init nbs bnds = Inr cov \<and>
        iv = \<lparr> name = nm, size_I = sz, shape = [sz], bounds = bnds, dist_I = d,
               axis = ax, axes = [ax], dealias = dl, COV = cov \<rparr>)"
  by (auto simp: Interval_init_def split: sum.splits)

lemma check_shape_single:
  "check_shape [g] [sz] =
     (if g = 0 then Inl ZeroDivisionError
      else if sz mod g \<noteq> 0 then Inl (ValueError ''Space shape must be multiple of group shape.'')
      else Inr ())"
  by (simp add: check_shape_def)

lemma remedy_scales_Inr:
  "remedy_scales d sc = Inr ss \<Longrightarrow> length ss = dim d \<and> (\<forall>s\<in>set ss. 0 < s)"
  by (auto simp: remedy_scales_def list_ex_iff not_le split: scales_arg.splits if_splits)

lemma Space_grid_shape_axis:
  assumes "remedy_scales (dist_I iv) sc = Inr ss" and "axis iv < dim (dist_I iv)"
    and "shape iv = [sz]"
  shows "Space_grid_shape iv sc = Inr [py_int (ss ! axis iv * real_of_int sz)]"
proof -
  from remedy_scales_Inr [OF assms(1)] assms(2) have "axis iv < length ss" by simp
  then have "take 1 (drop (axis iv) ss) = [ss ! axis iv]"
    by (simp add: take_Suc_conv_app_nth hd_drop_conv_nth take_Suc)
  with assms show ?thesis by (simp add: Space_grid_shape_def)
qed

lemma PeriodicInterval_init_Inr:
  "PeriodicInterval_init nm sz bnds d ax dl = Inr sp \<Longrightarrow>
     sz mod 2 = 0 \<and>
     (\<exists>cov. AffineCOV_init (0, 2 * pi) bnds = Inr cov \<and>
        sp = PeriodicInterval
               \<lparr> name = nm, size_I = sz, shape = [sz], bounds = bnds, dist_I = d,
                 axis = ax, axes = [ax], dealias = dl, COV = cov \<rparr> ((sz - 1) div 2))"
  by (auto simp: PeriodicInterval_init_def check_shape_single
      dest!: Interval_init_Inr split: sum.splits if_splits)

lemma ParityInterval_init_Inr:
  "ParityInterval_init nm sz bnds d ax dl = Inr sp \<Longrightarrow>
     (\<exists>cov. AffineCOV_init (0, pi) bnds = Inr cov \<and>
        sp = ParityInterval
               \<lparr> name = nm, size_I = sz, shape = [sz], bounds = bnds, dist_I = d,
                 axis = ax, axes = [ax], dealias = dl, COV = cov \<rparr> (sz - 1))"
  by (auto simp: ParityInterval_init_def dest!: Interval_init_Inr split: sum.splits)

lemma FiniteInterval_init_Inr:
  "FiniteInterval_init a b nm sz bnds d ax dl = Inr sp \<Longrightarrow>
     (\<exists>cov. AffineCOV_init (- 1, 1) bnds = Inr cov \<and>
        sp = FiniteInterval
               \<lparr> name = nm, size_I = sz, shape = [sz], bounds = bnds, dist_I = d,
                 axis = ax, axes = [ax], dealias = dl, COV = cov \<rparr> a b)"
  by (auto simp: FiniteInterval_init_def dest!: Interval_init_Inr split: sum.splits)

lemma interval_grid_shape:
  assumes "PeriodicInterval_init nm sz bnds d ax dl = Inr sp
        \<or> ParityInterval_init nm sz bnds d ax dl = Inr sp
        \<or> FiniteInterval_init a b nm sz bnds d ax dl = Inr sp"
    and "remedy_scales d sc = Inr ss" and "ax < dim d"
  shows "grid_shape sp sc = Inr [py_int (ss ! ax * real_of_int sz)]"
  using assms(1)
proof (elim disjE)
  assume "PeriodicInterval_init nm sz bnds d ax dl = Inr sp"
  from PeriodicInterval_init_Inr [OF this] obtain iv k where
    "sp = PeriodicInterval iv k" "dist_I iv = d" "axis iv = ax" "shape iv = [sz]"
    by auto
  with Space_grid_shape_axis [of iv sc ss sz] assms(2,3) show ?thesis by simp
next
  assume "ParityInterval_init nm sz bnds d ax dl = Inr sp"
  from ParityInterval_init_Inr [OF this] obtain iv k where
    "sp = ParityInterval iv k" "dist_I iv = d" "axis iv = ax" "shape iv = [sz]"
    by auto
  with Space_grid_shape_axis [of iv sc ss sz] assms(2,3) show ?thesis by simp
next
  assume "FiniteInterval_init a b nm sz bnds d ax dl = Inr sp"
  from FiniteInterval_init_Inr [OF this] obtain iv where
    "sp = FiniteInterval iv a b" "dist_I iv = d" "axis iv = ax" "shape iv = [sz]"
    by auto
  with Space_grid_shape_axis [of iv sc ss sz] assms(2,3) show ?thesis by simp
qed

lemma py_int_of_int: "py_int (real_of_int k) = k"
  by (simp add: py_int_def)


lemma py_index_0: "py_index (x # xs) 0 = Inr x"
  by (simp add: py_index_def Let_def)

lemma Space_grid_shape_fl_axis:
  assumes "remedy_scales (dist_I iv) sc = Inr ss" and "axis iv < dim (dist_I iv)"
    and "shape iv = [sz]"
  shows "Space_grid_shape_fl fmul iv sc = Inr [py_int (fmul (ss ! axis iv) sz)]"
proof -
  from remedy_scales_Inr [OF assms(1)] assms(2) have "axis iv < length ss" by simp
  then have "take 1 (drop (axis iv) ss) = [ss ! axis iv]"
    by (simp add: take_Suc_conv_app_nth hd_drop_conv_nth take_Suc)
  with assms show ?thesis by (simp add: Space_grid_shape_fl_def)
qed

lemma grid_shape_exact: "grid_shape sp sc = grid_shape_fl (\<lambda>s n. s * real_of_int n) sp sc"
  by (cases sp) (simp_all add: Space_grid_shape_def Space_grid_shape_fl_def)

lemma interval_grid_shape_fl:
  assumes "PeriodicInterval_init nm sz bnds d ax dl = Inr sp
        \<or> ParityInterval_init nm sz bnds d ax dl = Inr sp
        \<or> FiniteInterval_init a b nm sz bnds d ax dl = Inr sp"
    and "remedy_scales d sc = Inr ss" and "ax < dim d"
  shows "grid_shape_fl fmul sp sc = Inr [py_int (fmul (ss ! ax) sz)]"
  using assms(1)
proof (elim disjE)
  assume "PeriodicInterval_init nm sz bnds d ax dl = Inr sp"
  from PeriodicInterval_init_Inr [OF this] obtain iv k where
    "sp = PeriodicInterval iv k" "dist_I iv = d" "axis iv = ax" "shape iv = [sz]"
    by auto
  with Space_grid_shape_fl_axis [of iv sc ss sz fmul] assms(2,3) show ?thesis by simp
next
  assume "ParityInterval_init nm sz bnds d ax dl = Inr sp"
  from ParityInterval_init_Inr [OF this] obtain iv k where
    "sp = ParityInterval iv k" "dist_I iv = d" "axis iv = ax" "shape iv = [sz]"
    by auto
  with Space_grid_shape_fl_axis [of iv sc ss sz fmul] assms(2,3) show ?thesis by simp
next
  assume "FiniteInterval_init a b nm sz bnds d ax dl = Inr sp"
  from FiniteInterval_init_Inr [OF this] obtain iv where
    "sp = FiniteInterval iv a b" "dist_I iv = d" "axis iv = ax" "shape iv = [sz]"
    by auto
  with Space_grid_shape_fl_axis [of iv sc ss sz fmul] assms(2,3) show ?thesis by simp
qed

lemma periodic_1D_global_grid_shape:
  assumes "PeriodicInterval_init nm 8 bnds \<lparr>dist_id = i, dim = 1\<rparr> 0 dl = Inr sp"
    and twelve: "fmul (3 / 2) 8 = 12"
  shows "\<exists>dmn. Domain_new [sp] = Inr dmn
           \<and> Domain_global_grid_shape fmul dmn (SeqScales [3 / 2]) = Inr [12]"
proof -
  let ?d = "\<lparr>dist_id = i, dim = 1\<rparr>"
  from PeriodicInterval_init_Inr [OF assms(1)] obtain iv k where
    sp: "sp = PeriodicInterval iv k" and iv: "dist_I iv = ?d" "axis iv = 0" "shape iv = [8]"
      "axes iv = [0]"
    by auto
  have new: "Domain_new [sp] = Inr \<lparr>dist_D = ?d, spaces = [sp]\<rparr>"
    by (simp add: Domain_new_def Domain_preprocess_args_def expand_spaces_def
        unify_attributes_dist_def constant_spaces_def Constant_init_def Domain_init_def sp iv)
  have rs: "remedy_scales ?d (ScalarScale (3 / 2)) = Inr [3 / 2]"
    by (simp add: remedy_scales_def)
  have "py_int (fmul (3 / 2) 8) = 12"
    unfolding twelve using py_int_of_int [of 12] by simp
  with Space_grid_shape_fl_axis [of iv "ScalarScale (3 / 2)" "[3 / 2]" 8 fmul] rs iv
  have gs: "Space_grid_shape_fl fmul iv (ScalarScale (3 / 2)) = Inr [12]"
    by simp
  have "Domain_global_grid_shape fmul \<lparr>dist_D = ?d, spaces = [sp]\<rparr> (SeqScales [3 / 2])
          = Inr [12]"
    by (simp add: Domain_global_grid_shape_def Domain_global_grid_shape'_def remedy_scales_def
        enumerate_eq_zip py_index_0 sp iv gs)
  with new show ?thesis by blast
qed

lemma AffineCOV_init_Inr:
  "AffineCOV_init nb pb = Inr cov \<Longrightarrow>
     snd nb - fst nb \<noteq> 0 \<and> snd pb - fst pb \<noteq> 0 \<and>
     cov = \<lparr> native_bounds = nb, problem_bounds = pb,
        native_left = fst nb, native_right = snd nb, native_length = snd nb - fst nb,
        problem_left = fst pb, problem_right = snd pb, problem_length = snd pb - fst pb,
        jacobian = (snd nb - fst nb) / (snd pb - fst pb),
        problem_center = (fst pb + snd pb) / 2,
        native_center = (fst nb + snd nb) / 2,
        stretch = (snd pb - fst pb) / (snd nb - fst nb) \<rparr>"
  by (auto simp: AffineCOV_init_def Let_def split: if_splits)

lemma remedy_scales_one: "remedy_scales d (ScalarScale 1) = Inr (replicate (dim d) 1)"
  by (simp add: remedy_scales_def)

text \<open>
  C8. A size that is not a multiple of the group shape of the class makes the constructor
  raise the shape error: for the shared \<^verbatim>\<open>Interval.__init__\<close> with any non-zero group entry
  \<open>g\<close>, and so for a PeriodicInterval (group shape 2) of odd size. Every space object a
  constructor of the four classes returns has a shape that is entrywise a multiple of
  its group shape.
\<close>

theorem shape_checked_at_construction:
  "(g \<noteq> 0 \<and> sz mod g \<noteq> 0 \<longrightarrow>
      Interval_init nbs [g] nm sz bnds d ax dl
        = Inl (ValueError ''Space shape must be multiple of group shape.''))
   \<and> (sz mod 2 \<noteq> 0 \<longrightarrow>
      PeriodicInterval_init nm sz bnds d ax dl
        = Inl (ValueError ''Space shape must be multiple of group shape.''))
   \<and> ((PeriodicInterval_init nm sz bnds d ax dl = Inr sp
        \<or> ParityInterval_init nm sz bnds d ax dl = Inr sp
        \<or> FiniteInterval_init a b nm sz bnds d ax dl = Inr sp
        \<or> Constant_init d ax = sp) \<longrightarrow>
      list_all2 (\<lambda>ss gs. ss mod gs = 0) (space_shape sp) (space_group_shape sp))"
proof (intro conjI impI)
  assume "g \<noteq> 0 \<and> sz mod g \<noteq> 0"
  then show "Interval_init nbs [g] nm sz bnds d ax dl
        = Inl (ValueError ''Space shape must be multiple of group shape.'')"
    by (simp add: Interval_init_def check_shape_single)
next
  assume "sz mod 2 \<noteq> 0"
  then show "PeriodicInterval_init nm sz bnds d ax dl
        = Inl (ValueError ''Space shape must be multiple of group shape.'')"
    by (simp add: PeriodicInterval_init_def Interval_init_def check_shape_single)
next
  assume "PeriodicInterval_init nm sz bnds d ax dl = Inr sp
        \<or> ParityInterval_init nm sz bnds d ax dl = Inr sp
        \<or> FiniteInterval_init a b nm sz bnds d ax dl = Inr sp
        \<or> Constant_init d ax = sp"
  then consider
      (per) "PeriodicInterval_init nm sz bnds d ax dl = Inr sp"
    | (par) "ParityInterval_init nm sz bnds d ax dl = Inr sp"
    | (fin) "FiniteInterval_init a b nm sz bnds d ax dl = Inr sp"
    | (con) "Constant_init d ax = sp"
    by blast
  then show "list_all2 (\<lambda>ss gs. ss mod gs = 0) (space_shape sp) (space_group_shape sp)"
  proof cases
    case per
    then obtain iv where iv: "Interval_init (0, 2 * pi) [2] nm sz bnds d ax dl = Inr iv"
      and sp: "sp = PeriodicInterval iv ((size_I iv - 1) div 2)"
      by (auto simp: PeriodicInterval_init_def split: sum.splits)
    from Interval_init_Inr [OF iv] show ?thesis
      by (auto simp: sp check_shape_single split: if_splits)
  next
    case par
    then obtain iv where iv: "Interval_init (0, pi) [1] nm sz bnds d ax dl = Inr iv"
      and sp: "sp = ParityInterval iv (size_I iv - 1)"
      by (auto simp: ParityInterval_init_def split: sum.splits)
    from Interval_init_Inr [OF iv] show ?thesis
      by (auto simp: sp)
  next
    case fin
    then obtain iv where iv: "Interval_init (- 1, 1) [1] nm sz bnds d ax dl = Inr iv"
      and sp: "sp = FiniteInterval iv a b"
      by (auto simp: FiniteInterval_init_def split: sum.splits)
    from Interval_init_Inr [OF iv] show ?thesis
      by (auto simp: sp)
  next
    case con
    then show ?thesis by (auto simp: Constant_init_def)
  qed
qed

theorem shape_checked_at_construction_witness:
  "((2::int) \<noteq> 0 \<and> (7::int) mod 2 \<noteq> 0)
   \<and> Interval_init (0, 2 * pi) [2] ''x'' 7 (0, 1) \<lparr>dist_id = 0, dim = 1\<rparr> 0 1
        = Inl (ValueError ''Space shape must be multiple of group shape.'')
   \<and> PeriodicInterval_init ''x'' 7 (0, 1) \<lparr>dist_id = 0, dim = 1\<rparr> 0 1
        = Inl (ValueError ''Space shape must be multiple of group shape.'')
   \<and> (\<exists>sp. PeriodicInterval_init ''x'' 8 (0, 1) \<lparr>dist_id = 0, dim = 1\<rparr> 0 1 = Inr sp
         \<and> list_all2 (\<lambda>ss gs. ss mod gs = 0) (space_shape sp) (space_group_shape sp))"
proof -
  let ?d = "\<lparr>dist_id = 0, dim = 1\<rparr>"
  have odd: "(2::int) \<noteq> 0 \<and> (7::int) mod 2 \<noteq> 0" by simp
  obtain sp where sp: "PeriodicInterval_init ''x'' 8 (0, 1) ?d 0 1 = Inr sp"
    by (simp add: PeriodicInterval_init_def Interval_init_def check_shape_def
        AffineCOV_init_def Let_def)
  from shape_checked_at_construction [of 2 7 "(0, 2 * pi)" "''x''" "(0, 1)" ?d 0 1 undefined 0 0]
    shape_checked_at_construction [of 2 8 "(0, 2 * pi)" "''x''" "(0, 1)" ?d 0 1 sp 0 0]
    odd sp
  show ?thesis by (intro conjI exI [of _ sp]) simp_all
qed


text \<open>
  C2. A space built by the constructor of one of the three interval classes with size
  \<open>sz\<close> on axis \<open>ax\<close> of its distributor answers \<^verbatim>\<open>grid_shape\<close> with the one-element tuple
  \<^verbatim>\<open>int(s * sz)\<close>: the product of the language, whatever it rounds to, truncated towards
  zero, where \<open>s\<close> is the remedied scale of its axis; on a product that is an integer
  truncation and rounding agree. A Constant space ignores the scale and returns \<open>(1,)\<close>. A
  PeriodicInterval of size 8 on a one-axis distributor has a one-space Domain whose
  \<^verbatim>\<open>global_grid_shape((1.5,))\<close> is \<open>(12,)\<close>, the double product of 1.5 and 8 being 12.
\<close>

theorem grid_shape_truncates:
  "((PeriodicInterval_init nm sz bnds d ax dl = Inr sp
      \<or> ParityInterval_init nm sz bnds d ax dl = Inr sp
      \<or> FiniteInterval_init a b nm sz bnds d ax dl = Inr sp)
     \<and> remedy_scales d sc = Inr ss \<and> ax < dim d \<longrightarrow>
       grid_shape_fl fmul sp sc = Inr [py_int (fmul (ss ! ax) sz)])
   \<and> py_int (real_of_int k) = round (real_of_int k)
   \<and> grid_shape_fl fmul (Constant_init d ax) sc = Inr [1]
   \<and> (PeriodicInterval_init nm' 8 bnds' \<lparr>dist_id = i, dim = 1\<rparr> 0 dl' = Inr sp'
        \<and> fmul (3 / 2) 8 = 12 \<longrightarrow>
        (\<exists>dmn. Domain_new [sp'] = Inr dmn
           \<and> Domain_global_grid_shape fmul dmn (SeqScales [3 / 2]) = Inr [12]))"
  using interval_grid_shape_fl [of nm sz bnds d ax dl sp a b sc ss fmul]
    periodic_1D_global_grid_shape [of nm' bnds' i dl' sp' fmul]
  by (simp add: Constant_init_def py_int_of_int)

theorem grid_shape_truncates_witness:
  "\<exists>sp. (PeriodicInterval_init ''x'' 8 (0, 1) \<lparr>dist_id = 0, dim = 1\<rparr> 0 1 = Inr sp
       \<and> remedy_scales \<lparr>dist_id = 0, dim = 1\<rparr> (SeqScales [3 / 2]) = Inr [3 / 2]
       \<and> (0::nat) < dim \<lparr>dist_id = 0, dim = 1\<rparr>
       \<and> (\<lambda>s n. s * real_of_int n) (3 / 2) 8 = (12::real))
     \<and> grid_shape_fl (\<lambda>s n. s * real_of_int n) sp (SeqScales [3 / 2]) = Inr [12]
     \<and> (\<exists>dmn. Domain_new [sp] = Inr dmn
           \<and> Domain_global_grid_shape (\<lambda>s n. s * real_of_int n) dmn (SeqScales [3 / 2])
                = Inr [12])"
proof -
  let ?d = "\<lparr>dist_id = 0, dim = 1\<rparr>"
  let ?mul = "\<lambda>(s::real) (n::int). s * real_of_int n"
  obtain sp where sp: "PeriodicInterval_init ''x'' 8 (0, 1) ?d 0 1 = Inr sp"
    by (simp add: PeriodicInterval_init_def Interval_init_def check_shape_def
        AffineCOV_init_def Let_def)
  have rs: "remedy_scales ?d (SeqScales [3 / 2]) = Inr [3 / 2]"
    by (simp add: remedy_scales_def)
  have exact: "?mul (3 / 2) 8 = 12" by simp
  have twelve: "py_int (?mul ([3 / 2] ! 0) 8) = 12"
    using py_int_of_int [of 12] by simp
  from grid_shape_truncates [of "''x''" 8 "(0, 1)" ?d 0 1 sp 0 0 "SeqScales [3 / 2]" "[3 / 2]"
      ?mul 12 "''x''" "(0, 1)" 0 1 sp] sp rs exact twelve
  show ?thesis by (intro exI [of _ sp]) simp
qed

text \<open>
  The claim as stated, with \<^verbatim>\<open>round(s * N)\<close>, fails: a FiniteInterval of size 5 at scale
  3/4 has the product 3.75, in doubles as in exact arithmetic; \<^verbatim>\<open>grid_shape\<close> returns
  \<open>(3,)\<close> and rounding gives 4.
\<close>

theorem grid_shape_round_counterexample:
  "FiniteInterval_init 0 0 ''x'' 5 (- 1, 1) \<lparr>dist_id = 0, dim = 1\<rparr> 0 1
     = Inr (FiniteInterval
             \<lparr> name = ''x'', size_I = 5, shape = [5], bounds = (- 1, 1),
               dist_I = \<lparr>dist_id = 0, dim = 1\<rparr>, axis = 0, axes = [0], dealias = 1,
               COV = \<lparr> native_bounds = (- 1, 1), problem_bounds = (- 1, 1),
                       native_left = - 1, native_right = 1, native_length = 2,
                       problem_left = - 1, problem_right = 1, problem_length = 2,
                       jacobian = 1, problem_center = 0, native_center = 0,
                       stretch = 1 \<rparr> \<rparr> 0 0)
   \<and> remedy_scales \<lparr>dist_id = 0, dim = 1\<rparr> (ScalarScale (3 / 4)) = Inr [3 / 4]
   \<and> grid_shape
        (FiniteInterval
             \<lparr> name = ''x'', size_I = 5, shape = [5], bounds = (- 1, 1),
               dist_I = \<lparr>dist_id = 0, dim = 1\<rparr>, axis = 0, axes = [0], dealias = 1,
               COV = \<lparr> native_bounds = (- 1, 1), problem_bounds = (- 1, 1),
                       native_left = - 1, native_right = 1, native_length = 2,
                       problem_left = - 1, problem_right = 1, problem_length = 2,
                       jacobian = 1, problem_center = 0, native_center = 0,
                       stretch = 1 \<rparr> \<rparr> 0 0)
        (ScalarScale (3 / 4)) = Inr [3]
   \<and> round ((3 / 4 :: real) * real_of_int 5) = (4 :: int)
   \<and> grid_shape
        (FiniteInterval
             \<lparr> name = ''x'', size_I = 5, shape = [5], bounds = (- 1, 1),
               dist_I = \<lparr>dist_id = 0, dim = 1\<rparr>, axis = 0, axes = [0], dealias = 1,
               COV = \<lparr> native_bounds = (- 1, 1), problem_bounds = (- 1, 1),
                       native_left = - 1, native_right = 1, native_length = 2,
                       problem_left = - 1, problem_right = 1, problem_length = 2,
                       jacobian = 1, problem_center = 0, native_center = 0,
                       stretch = 1 \<rparr> \<rparr> 0 0)
        (ScalarScale (3 / 4)) \<noteq> Inr [round ((3 / 4 :: real) * real_of_int 5)]"
  by (simp add: FiniteInterval_init_def Interval_init_def check_shape_def AffineCOV_init_def
      Let_def remedy_scales_def Space_grid_shape_def py_int_def round_def)

text \<open>
  C7. A PeriodicInterval constructed with size \<open>N \<ge> 1\<close> on an axis of its distributor has
  \<^verbatim>\<open>kmax = (N - 1) // 2\<close> and group shape \<open>(2,)\<close>; at scale 1 its grid shape is \<open>(N,)\<close>,
  the native grid has exactly \<open>N\<close> points, the \<open>i\<close>-th being \<open>2 pi i / N\<close>, and \<^verbatim>\<open>grids\<close>
  returns the one-element tuple of their problem coordinates: the \<open>i\<close>-th point of the
  returned grid has native coordinate \<open>2 pi i / N\<close>, the first one native coordinate 0.
\<close>

theorem PeriodicInterval_kmax_grid:
  assumes init: "PeriodicInterval_init nm N bnds d ax dl = Inr sp"
    and N: "1 \<le> N" and ax: "ax < dim d"
  shows "\<exists>iv g. sp = PeriodicInterval iv ((N - 1) div 2)
      \<and> space_group_shape sp = [2]
      \<and> grid_shape sp (ScalarScale 1) = Inr [N]
      \<and> length (periodic_native_grid N) = nat N
      \<and> (\<forall>i<nat N. periodic_native_grid N ! i = 2 * pi * real i / real_of_int N)
      \<and> problem_coord (COV iv) (NdArray (periodic_native_grid N)) = Inr (NdArray g)
      \<and> grids build_grid sp (ScalarScale 1) = Inr (PyTuple [NdArray g])
      \<and> length g = nat N
      \<and> (\<forall>i<nat N. native_coord (COV iv) (PyFloat (g ! i))
                      = Inr (PyFloat (2 * pi * real i / real_of_int N)))
      \<and> native_coord (COV iv) (PyFloat (hd g)) = Inr (PyFloat 0)"
proof -
  from PeriodicInterval_init_Inr [OF init] obtain cov where
    cov: "AffineCOV_init (0, 2 * pi) bnds = Inr cov"
    and sp: "sp = PeriodicInterval
               \<lparr> name = nm, size_I = N, shape = [N], bounds = bnds, dist_I = d,
                 axis = ax, axes = [ax], dealias = dl, COV = cov \<rparr> ((N - 1) div 2)"
    by blast
  let ?iv = "\<lparr> name = nm, size_I = N, shape = [N], bounds = bnds, dist_I = d,
                 axis = ax, axes = [ax], dealias = dl, COV = cov \<rparr>"
  let ?f = "\<lambda>x. fst bnds + x / (2 * pi) * (snd bnds - fst bnds)"
  let ?g = "map ?f (periodic_native_grid N)"
  from AffineCOV_init_Inr [OF cov] have p0: "snd bnds - fst bnds \<noteq> 0"
    and nl: "native_left cov = 0" and nlen: "native_length cov = 2 * pi"
    and pl: "problem_left cov = fst bnds" and plen: "problem_length cov = snd bnds - fst bnds"
    by auto
  have gsh: "grid_shape sp (ScalarScale 1) = Inr [N]"
    using Space_grid_shape_axis [of ?iv "ScalarScale 1" "replicate (dim d) 1" N] ax
    by (simp add: sp remedy_scales_one py_int_of_int)
  have len: "length (periodic_native_grid N) = nat N"
    by (simp add: periodic_native_grid_def)
  have nth: "\<forall>i<nat N. periodic_native_grid N ! i = 2 * pi * real i / real_of_int N"
    by (simp add: periodic_native_grid_def)
  have pc: "problem_coord (COV ?iv) (NdArray (periodic_native_grid N)) = Inr (NdArray ?g)"
    by (simp add: nl nlen pl plen)
  have grd: "grids build_grid sp (ScalarScale 1) = Inr (PyTuple [NdArray ?g])"
    using gsh pc by (simp add: sp py_index_0)
  have inv: "native_coord cov (PyFloat (?f x)) = Inr (PyFloat x)" for x
    using p0 by (simp add: nl nlen pl plen)
  have covsel: "COV ?iv = cov" by simp
  have backw: "\<forall>i<nat N. native_coord (COV ?iv) (PyFloat (?g ! i))
                      = Inr (PyFloat (2 * pi * real i / real_of_int N))"
  proof (intro allI impI)
    fix i assume "i < nat N"
    then have gi: "?g ! i = ?f (2 * pi * real i / real_of_int N)"
      using len nth by simp
    show "native_coord (COV ?iv) (PyFloat (?g ! i))
            = Inr (PyFloat (2 * pi * real i / real_of_int N))"
      unfolding covsel gi by (rule inv)
  qed
  from N have "0 < nat N" by simp
  then have "?g \<noteq> []" using len by auto
  then have "hd ?g = ?g ! 0" by (rule hd_conv_nth)
  moreover from backw \<open>0 < nat N\<close>
  have "native_coord (COV ?iv) (PyFloat (?g ! 0)) = Inr (PyFloat (2 * pi * real 0 / real_of_int N))"
    by blast
  ultimately have first: "native_coord (COV ?iv) (PyFloat (hd ?g)) = Inr (PyFloat 0)"
    by simp
  from sp gsh len nth pc grd backw first show ?thesis
    by (intro exI [of _ ?iv] exI [of _ ?g]) simp
qed

theorem PeriodicInterval_kmax_grid_witness:
  "\<exists>sp iv g. PeriodicInterval_init ''x'' 8 (0, 1) \<lparr>dist_id = 0, dim = 1\<rparr> 0 1 = Inr sp
     \<and> (1::int) \<le> 8 \<and> (0::nat) < dim \<lparr>dist_id = 0, dim = 1\<rparr>
     \<and> sp = PeriodicInterval iv 3
     \<and> space_group_shape sp = [2]
     \<and> grid_shape sp (ScalarScale 1) = Inr [8]
     \<and> grids (\<lambda>N a b. []) sp (ScalarScale 1) = Inr (PyTuple [NdArray g])
     \<and> length g = 8
     \<and> native_coord (COV iv) (PyFloat (hd g)) = Inr (PyFloat 0)"
proof -
  let ?d = "\<lparr>dist_id = 0, dim = 1\<rparr>"
  obtain sp where sp: "PeriodicInterval_init ''x'' 8 (0, 1) ?d 0 1 = Inr sp"
    by (simp add: PeriodicInterval_init_def Interval_init_def check_shape_def
        AffineCOV_init_def Let_def)
  have N: "(1::int) \<le> 8" and ax: "(0::nat) < dim ?d" by simp_all
  from PeriodicInterval_kmax_grid [OF sp N ax, of "\<lambda>N a b. []"] obtain iv g where
    "sp = PeriodicInterval iv ((8 - 1) div 2)" "space_group_shape sp = [2]"
    "grid_shape sp (ScalarScale 1) = Inr [8]"
    "grids (\<lambda>N a b. []) sp (ScalarScale 1) = Inr (PyTuple [NdArray g])"
    "length g = nat 8" "native_coord (COV iv) (PyFloat (hd g)) = Inr (PyFloat 0)"
    by blast
  with sp N ax show ?thesis
    by (intro exI [of _ sp] exI [of _ iv] exI [of _ g]) simp
qed

text \<open>
  C3. The claim fails for the FiniteInterval class: for a constructed FiniteInterval and
  valid scales, \<^verbatim>\<open>grids\<close> returns the array of problem coordinates itself and never a
  tuple, where \<^verbatim>\<open>PeriodicInterval.grids\<close>, \<^verbatim>\<open>ParityInterval.grids\<close> and \<^verbatim>\<open>Constant.grids\<close>
  return a one-element tuple holding the array.
\<close>

theorem FiniteInterval_grids_bare_array:
  assumes init: "FiniteInterval_init a b nm sz bnds d ax dl = Inr sp"
    and rs: "remedy_scales d sc = Inr ss" and ax: "ax < dim d"
  shows "grids build_grid sp sc
           = Inr (NdArray (map (\<lambda>x. fst bnds + (x + 1) / 2 * (snd bnds - fst bnds))
                            (build_grid (py_int (ss ! ax * real_of_int sz)) a b)))
         \<and> (\<forall>gs. grids build_grid sp sc \<noteq> Inr (PyTuple gs))"
proof -
  from FiniteInterval_init_Inr [OF init] obtain cov where
    cov: "AffineCOV_init (- 1, 1) bnds = Inr cov"
    and sp: "sp = FiniteInterval
               \<lparr> name = nm, size_I = sz, shape = [sz], bounds = bnds, dist_I = d,
                 axis = ax, axes = [ax], dealias = dl, COV = cov \<rparr> a b"
    by blast
  from AffineCOV_init_Inr [OF cov] have
    nl: "native_left cov = - 1" and nlen: "native_length cov = 2"
    and pl: "problem_left cov = fst bnds" and plen: "problem_length cov = snd bnds - fst bnds"
    by auto
  have gsh: "grid_shape sp sc = Inr [py_int (ss ! ax * real_of_int sz)]"
    using interval_grid_shape [of nm sz bnds d ax dl sp a b sc ss] init rs ax by simp
  then have "grids build_grid sp sc
           = Inr (NdArray (map (\<lambda>x. fst bnds + (x + 1) / 2 * (snd bnds - fst bnds))
                            (build_grid (py_int (ss ! ax * real_of_int sz)) a b)))"
    by (simp add: sp py_index_0 nl nlen pl plen)
  then show ?thesis by simp
qed

theorem FiniteInterval_grids_bare_array_witness:
  "\<exists>sp. FiniteInterval_init 0 0 ''x'' 4 (- 1, 1) \<lparr>dist_id = 0, dim = 1\<rparr> 0 1 = Inr sp
     \<and> remedy_scales \<lparr>dist_id = 0, dim = 1\<rparr> (ScalarScale 1) = Inr [1]
     \<and> (0::nat) < dim \<lparr>dist_id = 0, dim = 1\<rparr>
     \<and> grids (\<lambda>N a b. replicate (nat N) 0) sp (ScalarScale 1) = Inr (NdArray [0, 0, 0, 0])
     \<and> grids (\<lambda>N a b. replicate (nat N) 0) sp (ScalarScale 1) \<noteq> Inr (PyTuple [NdArray [0, 0, 0, 0]])"
proof -
  let ?d = "\<lparr>dist_id = 0, dim = 1\<rparr>"
  obtain sp where sp: "FiniteInterval_init 0 0 ''x'' 4 (- 1, 1) ?d 0 1 = Inr sp"
    by (simp add: FiniteInterval_init_def Interval_init_def check_shape_def
        AffineCOV_init_def Let_def)
  have rs: "remedy_scales ?d (ScalarScale 1) = Inr [1]"
    by (simp add: remedy_scales_def)
  have ax: "(0::nat) < dim ?d" by simp
  have four: "py_int 4 = 4"
    using py_int_of_int [of 4] by simp
  have rep: "replicate (nat (py_int 4)) (0::real) = [0, 0, 0, 0]"
    by (simp add: four eval_nat_numeral)
  from FiniteInterval_grids_bare_array [OF sp rs ax, of "\<lambda>N a b. replicate (nat N) 0"]
    sp rs ax
  show ?thesis
    by (intro exI [of _ sp]) (simp add: rep)
qed

section \<open>Domain: expansion, caching and shapes\<close>

lemma constant_spaces_2: "dim d = 2 \<Longrightarrow> constant_spaces d = [Constant d [0], Constant d [1]]"
  by (simp add: constant_spaces_def Constant_init_def upt_rec numeral_2_eq_2)

text \<open>
  C1. The claim fails on lists of three spaces of which only two overlap. The overlap test
  of \<^verbatim>\<open>expand_spaces\<close> is the intersection of all the axis sets: two spaces that both
  claim axis 0 raise the error, but with a third space on axis 1 the intersection is
  empty, no error is raised, and the second space silently replaces the first.
\<close>

theorem expand_spaces_misses_overlap:
  assumes "space_dist s1 = d" "space_dist s2 = d" "space_dist s3 = d" "dim d = 2"
    and "space_axes s1 = [0]" "space_axes s2 = [0]" "space_axes s3 = [1]"
  shows "expand_spaces [s1, s2] = Inl (ValueError ''Overlapping spaces specified.'')
       \<and> expand_spaces [s1, s2, s3] = Inr [s2, s3]"
  using assms
  by (simp add: expand_spaces_def unify_attributes_dist_def constant_spaces_2)

theorem expand_spaces_misses_overlap_witness:
  "\<exists>s1 s2 s3.
     ParityInterval_init ''x'' 4 (0, 1) \<lparr>dist_id = 0, dim = 2\<rparr> 0 1 = Inr s1
   \<and> FiniteInterval_init 0 0 ''y'' 6 (- 1, 1) \<lparr>dist_id = 0, dim = 2\<rparr> 0 1 = Inr s2
   \<and> FiniteInterval_init 0 0 ''z'' 6 (- 1, 1) \<lparr>dist_id = 0, dim = 2\<rparr> 1 1 = Inr s3
   \<and> space_axes s1 = [0] \<and> space_axes s2 = [0] \<and> space_axes s3 = [1]
   \<and> space_dist s1 = \<lparr>dist_id = 0, dim = 2\<rparr>
   \<and> space_dist s2 = \<lparr>dist_id = 0, dim = 2\<rparr>
   \<and> space_dist s3 = \<lparr>dist_id = 0, dim = 2\<rparr>
   \<and> expand_spaces [s1, s2] = Inl (ValueError ''Overlapping spaces specified.'')
   \<and> expand_spaces [s1, s2, s3] = Inr [s2, s3]"
proof -
  let ?d = "\<lparr>dist_id = 0, dim = 2\<rparr>"
  obtain s1 where s1: "ParityInterval_init ''x'' 4 (0, 1) ?d 0 1 = Inr s1"
    by (simp add: ParityInterval_init_def Interval_init_def check_shape_def
        AffineCOV_init_def Let_def)
  obtain s2 where s2: "FiniteInterval_init 0 0 ''y'' 6 (- 1, 1) ?d 0 1 = Inr s2"
    by (simp add: FiniteInterval_init_def Interval_init_def check_shape_def
        AffineCOV_init_def Let_def)
  obtain s3 where s3: "FiniteInterval_init 0 0 ''z'' 6 (- 1, 1) ?d 1 1 = Inr s3"
    by (simp add: FiniteInterval_init_def Interval_init_def check_shape_def
        AffineCOV_init_def Let_def)
  from ParityInterval_init_Inr [OF s1] have a1: "space_axes s1 = [0]" "space_dist s1 = ?d"
    by auto
  from FiniteInterval_init_Inr [OF s2] have a2: "space_axes s2 = [0]" "space_dist s2 = ?d"
    by auto
  from FiniteInterval_init_Inr [OF s3] have a3: "space_axes s3 = [1]" "space_dist s3 = ?d"
    by auto
  have "dim ?d = 2" by simp
  from expand_spaces_misses_overlap [OF a1(2) a2(2) a3(2) this a1(1) a2(1) a3(1)]
    s1 s2 s3 a1 a2 a3
  show ?thesis by blast
qed

lemma py_index_nat:
  "i < length xs \<Longrightarrow> py_index xs (int i) = Inr (xs ! i)"
  by (simp add: py_index_def Let_def)

lemma assemble_shape_enumerate:
  assumes "k + length sps \<le> length shp"
    and "\<forall>(i, s)\<in>set (enumerate k sps). space_axes s \<noteq> [] \<and> hd (space_axes s) \<le> i
           \<and> i - hd (space_axes s) < length (f s)"
  shows "assemble_shape (\<lambda>ax spc. Inr (f spc)) (enumerate k sps) shp
       = Inr (take k shp @ map (\<lambda>(i, s). f s ! (i - hd (space_axes s))) (enumerate k sps)
               @ drop (k + length sps) shp)"
  using assms
proof (induction sps arbitrary: k shp)
  case Nil
  then show ?case by simp
next
  case (Cons s sps)
  let ?a0 = "hd (space_axes s)"
  let ?v = "f s ! (k - ?a0)"
  have "(k, s) \<in> set (enumerate k (s # sps))" by simp
  with Cons.prems(2) have ne: "space_axes s \<noteq> []" and le: "?a0 \<le> k"
    and lt: "k - ?a0 < length (f s)"
    by blast+
  from ne have ax0: "py_index (space_axes s) 0 = Inr ?a0"
    by (cases "space_axes s") (simp_all add: py_index_0)
  from le have idiff: "int k - int ?a0 = int (k - ?a0)" by simp
  have sub: "py_index (f s) (int k - int ?a0) = Inr ?v"
    unfolding idiff using lt by (rule py_index_nat)
  from Cons.prems(1) have klt: "k < length shp" by simp
  have step: "assemble_shape (\<lambda>ax spc. Inr (f spc)) (enumerate k (s # sps)) shp
      = assemble_shape (\<lambda>ax spc. Inr (f spc)) (enumerate (Suc k) sps) (shp[k := ?v])"
    by (simp add: ax0 sub klt del: of_nat_diff)
  have p1: "Suc k + length sps \<le> length (shp[k := ?v])"
    using Cons.prems(1) by simp
  have p2: "\<forall>(i, s)\<in>set (enumerate (Suc k) sps). space_axes s \<noteq> [] \<and> hd (space_axes s) \<le> i
           \<and> i - hd (space_axes s) < length (f s)"
  proof (intro ballI)
    fix p assume "p \<in> set (enumerate (Suc k) sps)"
    then have "p \<in> set (enumerate k (s # sps))" by simp
    with Cons.prems(2) show "case p of (i, s) \<Rightarrow> space_axes s \<noteq> [] \<and> hd (space_axes s) \<le> i
           \<and> i - hd (space_axes s) < length (f s)"
      by blast
  qed
  have tk: "take (Suc k) (shp[k := ?v]) = take k shp @ [?v]"
    using klt by (simp add: take_Suc_conv_app_nth)
  have dr: "drop (Suc k + length sps) (shp[k := ?v]) = drop (k + length (s # sps)) shp"
    by simp
  show ?case
    unfolding step Cons.IH [OF p1 p2] tk dr by simp
qed


lemma assign_axes_eq:
  "assign_axes s axs full =
     (if \<forall>a\<in>set axs. a < length full
      then Inr (map (\<lambda>i. if i \<in> set axs then s else full ! i) [0..<length full])
      else Inl IndexError)"
proof (induction axs arbitrary: full)
  case Nil
  show ?case by (simp add: map_nth)
next
  case (Cons a axs)
  show ?case
  proof (cases "a < length full")
    case False
    then show ?thesis by auto
  next
    case True
    have "map (\<lambda>i. if i \<in> set axs then s else full[a := s] ! i) [0..<length full]
        = map (\<lambda>i. if i \<in> set (a # axs) then s else full ! i) [0..<length full]"
      by (rule map_cong) (auto simp: nth_list_update)
    with True show ?thesis by (simp add: Cons.IH)
  qed
qed

lemma find_snoc:
  "find P (xs @ [x]) = (case find P xs of Some y \<Rightarrow> Some y | None \<Rightarrow> if P x then Some x else None)"
  by (induction xs) auto

lemma assign_spaces_eq:
  "assign_spaces xs full =
     (if \<forall>s\<in>set xs. \<forall>a\<in>set (space_axes s). a < length full
      then Inr (map (\<lambda>i. case find (\<lambda>s. i \<in> set (space_axes s)) (rev xs) of
                             Some s \<Rightarrow> s | None \<Rightarrow> full ! i) [0..<length full])
      else Inl IndexError)"
proof (induction xs arbitrary: full)
  case Nil
  show ?case by (simp add: map_nth)
next
  case (Cons x xs)
  let ?full' = "map (\<lambda>i. if i \<in> set (space_axes x) then x else full ! i) [0..<length full]"
  show ?case
  proof (cases "\<forall>a\<in>set (space_axes x). a < length full")
    case False
    then show ?thesis by (auto simp: assign_axes_eq)
  next
    case True
    have len: "length ?full' = length full" by simp
    have "map (\<lambda>i. case find (\<lambda>s. i \<in> set (space_axes s)) (rev xs) of
                             Some s \<Rightarrow> s | None \<Rightarrow> ?full' ! i) [0..<length full]
        = map (\<lambda>i. case find (\<lambda>s. i \<in> set (space_axes s)) (rev (x # xs)) of
                             Some s \<Rightarrow> s | None \<Rightarrow> full ! i) [0..<length full]"
      by (rule map_cong) (auto simp: find_snoc split: option.splits)
    with True show ?thesis
      by (simp add: assign_axes_eq Cons.IH [of ?full'] del: find.simps)
  qed
qed

lemma find_unique_set:
  assumes "\<forall>s\<in>set xs. \<forall>t\<in>set xs. P s \<longrightarrow> P t \<longrightarrow> s = t" and "set ys = set xs"
  shows "find P ys = find P xs"
proof (cases "find P xs")
  case None
  then have "\<forall>s\<in>set xs. \<not> P s" by (auto simp: find_None_iff)
  with assms(2) have "find P ys = None" by (auto simp: find_None_iff)
  with None show ?thesis by simp
next
  case (Some s)
  then have s: "s \<in> set xs" "P s" by (auto simp: find_Some_iff in_set_conv_nth)
  with assms(2) have "find P ys \<noteq> None" by (auto simp: find_None_iff)
  then obtain t where t: "find P ys = Some t" by auto
  then have "t \<in> set ys" "P t" by (auto simp: find_Some_iff in_set_conv_nth)
  with assms s have "t = s" by blast
  with t Some show ?thesis by simp
qed

lemma assign_spaces_perm:
  assumes "set ys = set xs"
    and "\<forall>s\<in>set xs. \<forall>t\<in>set xs. s \<noteq> t \<longrightarrow> set (space_axes s) \<inter> set (space_axes t) = {}"
  shows "assign_spaces ys full = assign_spaces xs full"
proof -
  have "find (\<lambda>s. i \<in> set (space_axes s)) (rev ys) = find (\<lambda>s. i \<in> set (space_axes s)) (rev xs)"
    for i
  proof (rule find_unique_set)
    show "set (rev ys) = set (rev xs)" using assms(1) by simp
    show "\<forall>s\<in>set (rev xs). \<forall>t\<in>set (rev xs).
            i \<in> set (space_axes s) \<longrightarrow> i \<in> set (space_axes t) \<longrightarrow> s = t"
      using assms(2) by auto
  qed
  then show ?thesis
    unfolding assign_spaces_eq using assms(1) by simp
qed


lemma unify_attributes_dist_eq:
  "unify_attributes_dist xs =
     (if xs \<noteq> [] \<and> (\<forall>t\<in>set xs. space_dist t = space_dist (hd xs))
      then Inr (space_dist (hd xs)) else Inl AttributeMismatchError)"
  by (cases xs) (auto simp: unify_attributes_dist_def list_all_iff)

lemma unify_attributes_dist_perm_aux:
  assumes "set bs = set as" and "as \<noteq> []"
    and "\<forall>t\<in>set as. space_dist t = space_dist (hd as)"
  shows "(\<forall>t\<in>set bs. space_dist t = space_dist (hd bs)) \<and> space_dist (hd bs) = space_dist (hd as)"
proof -
  from assms(1,2) have "bs \<noteq> []" by auto
  then have "hd bs \<in> set bs" by (rule hd_in_set)
  with assms(1) have "hd bs \<in> set as" by simp
  with assms(3) have eq: "space_dist (hd bs) = space_dist (hd as)" by blast
  from assms(1,3) have "\<forall>t\<in>set bs. space_dist t = space_dist (hd as)" by simp
  with eq show ?thesis by simp
qed

lemma unify_attributes_dist_perm:
  assumes "set ys = set xs"
  shows "unify_attributes_dist ys = unify_attributes_dist xs"
proof (cases "xs = []")
  case True
  with assms have "ys = []" by simp
  with True show ?thesis by simp
next
  case False
  with assms have ne: "ys \<noteq> []" by auto
  show ?thesis
  proof (cases "\<forall>t\<in>set xs. space_dist t = space_dist (hd xs)")
    case True
    note aux = unify_attributes_dist_perm_aux [OF assms False True]
    have ux: "unify_attributes_dist xs = Inr (space_dist (hd xs))"
      unfolding unify_attributes_dist_eq by (rule if_P) (use False True in blast)
    have uy: "unify_attributes_dist ys = Inr (space_dist (hd ys))"
      unfolding unify_attributes_dist_eq by (rule if_P) (use ne aux in blast)
    from aux have "space_dist (hd ys) = space_dist (hd xs)" by blast
    with ux uy show ?thesis by (simp only:)
  next
    case nx: False
    have ny: "\<not> (\<forall>t\<in>set ys. space_dist t = space_dist (hd ys))"
    proof
      assume "\<forall>t\<in>set ys. space_dist t = space_dist (hd ys)"
      from unify_attributes_dist_perm_aux [OF assms [symmetric] ne this] nx
      show False by blast
    qed
    have ux: "unify_attributes_dist xs = Inl AttributeMismatchError"
      unfolding unify_attributes_dist_eq by (rule if_not_P) (use nx in blast)
    have uy: "unify_attributes_dist ys = Inl AttributeMismatchError"
      unfolding unify_attributes_dist_eq by (rule if_not_P) (use ny in blast)
    from ux uy show ?thesis by (simp only:)
  qed
qed

lemma foldl_inter: "foldl (\<inter>) s ss = s \<inter> \<Inter> (set ss)"
  by (induction ss arbitrary: s) auto

lemma set_intersection_Inter: "xs \<noteq> [] \<Longrightarrow> set_intersection xs = \<Inter> (set xs)"
  by (cases xs) (simp_all add: foldl_inter)

lemma expand_spaces_perm:
  assumes "mset ys = mset xs"
    and "\<forall>s\<in>set xs. \<forall>t\<in>set xs. s \<noteq> t \<longrightarrow> set (space_axes s) \<inter> set (space_axes t) = {}"
  shows "expand_spaces ys = expand_spaces xs"
proof -
  from assms(1) have st: "set ys = set xs" by (rule mset_eq_setD)
  from assms(1) have ln: "length ys = length xs" by (rule mset_eq_length)
  have un: "unify_attributes_dist ys = unify_attributes_dist xs"
    using st by (rule unify_attributes_dist_perm)
  have as: "assign_spaces ys full = assign_spaces xs full" for full
    using st assms(2) by (rule assign_spaces_perm)
  have chk: "set_intersection (map (\<lambda>s. set (space_axes s)) ys)
           = set_intersection (map (\<lambda>s. set (space_axes s)) xs)" if "1 < length xs"
  proof -
    from that ln have "xs \<noteq> []" "ys \<noteq> []" by auto
    then show ?thesis using st by (simp add: set_intersection_Inter)
  qed
  show ?thesis
  proof (cases "1 < length xs")
    case True
    show ?thesis
      unfolding expand_spaces_def un ln chk [OF True] as ..
  next
    case False
    then have "\<And>P. (1 < length xs \<and> P) = False" by simp
    then show ?thesis
      unfolding expand_spaces_def un ln as by (simp only:)
  qed
qed

lemma Domain_call_again:
  assumes "Domain_call c xs = Inr (inst, c')"
    and "Domain_preprocess_args ys = Domain_preprocess_args xs"
  shows "Domain_call c' ys = Inr (inst, c')"
proof -
  from assms(1) obtain key where key: "Domain_preprocess_args xs = Inr key"
    by (auto simp: Domain_call_def split: sum.splits)
  have hit: "map_of c' key = Some inst"
  proof (cases "map_of c key")
    case (Some i)
    with assms(1) key show ?thesis by (simp add: Domain_call_def)
  next
    case None
    with assms(1) key have "c' = c @ [(key, inst)]"
      by (auto simp: Domain_call_def split: sum.splits)
    with None show ?thesis by (simp add: map_add_def)
  qed
  with assms(2) key show ?thesis by (simp add: Domain_call_def)
qed

lemma expand_spaces_returns:
  assumes ne: "xs \<noteq> []" and dis: "distinct xs"
    and disj: "\<forall>s\<in>set xs. \<forall>t\<in>set xs. s \<noteq> t \<longrightarrow> set (space_axes s) \<inter> set (space_axes t) = {}"
    and d: "\<forall>s\<in>set xs. space_dist s = d"
    and ax: "\<forall>s\<in>set xs. \<forall>a\<in>set (space_axes s). a < dim d"
  shows "\<exists>full. expand_spaces xs = Inr full \<and> length full = dim d"
proof -
  from ne d have un: "unify_attributes_dist xs = Inr d"
    by (simp add: unify_attributes_dist_eq)
  have chk: "set_intersection (map (\<lambda>s. set (space_axes s)) xs) = {}" if "1 < length xs"
  proof -
    from that have l0: "0 < length xs" by arith
    from dis l0 that have "(xs ! 0 = xs ! 1) = ((0::nat) = 1)" by (rule nth_eq_iff_index_eq)
    then have "xs ! 0 \<noteq> xs ! 1" by simp
    moreover from that l0 have "xs ! 0 \<in> set xs" "xs ! 1 \<in> set xs"
      by (simp_all only: nth_mem)
    ultimately have "set (space_axes (xs ! 0)) \<inter> set (space_axes (xs ! 1)) = {}"
      using disj by blast
    moreover have "\<Inter> (set (map (\<lambda>s. set (space_axes s)) xs))
        \<subseteq> set (space_axes (xs ! 0)) \<inter> set (space_axes (xs ! 1))"
      using \<open>xs ! 0 \<in> set xs\<close> \<open>xs ! 1 \<in> set xs\<close> by auto
    ultimately show ?thesis using ne by (simp add: set_intersection_Inter)
  qed
  have len: "length (constant_spaces d) = dim d" by (simp add: constant_spaces_def)
  from ax have ok: "\<forall>s\<in>set xs. \<forall>a\<in>set (space_axes s). a < length (constant_spaces d)"
    unfolding len .
  let ?full = "map (\<lambda>i. case find (\<lambda>s. i \<in> set (space_axes s)) (rev xs) of
                     Some s \<Rightarrow> s | None \<Rightarrow> constant_spaces d ! i) [0..<length (constant_spaces d)]"
  have asg: "assign_spaces xs (constant_spaces d) = Inr ?full"
    unfolding assign_spaces_eq using ok by (rule if_P)
  have nochk: "\<not> (length xs > 1 \<and> set_intersection (map (\<lambda>s. set (space_axes s)) xs) \<noteq> {})"
    using chk by blast
  have "expand_spaces xs = Inr ?full"
    unfolding expand_spaces_def un using nochk asg by (simp only: sum.case if_False)
  moreover have "length ?full = dim d" using len by simp
  ultimately show ?thesis by blast
qed

text \<open>
  C4. For a list \<open>xs\<close> of distinct spaces with pairwise disjoint axis sets that share the
  distributor \<open>d\<close>, and any rearrangement \<open>ys\<close> of it: the preprocessed arguments, which
  are the cache key, are the same for \<open>ys\<close> and \<open>xs\<close>; once a call with \<open>xs\<close> has returned
  an instance, a call with \<open>ys\<close> returns that very instance and leaves the cache as it is;
  and the call with \<open>xs\<close> does return an instance when the list is not empty and every
  axis is an axis of the distributor. A space value stands for the space object.
\<close>

theorem Domain_order_independent:
  assumes "mset ys = mset xs" and "distinct xs"
    and "\<forall>s\<in>set xs. \<forall>t\<in>set xs. s \<noteq> t \<longrightarrow> set (space_axes s) \<inter> set (space_axes t) = {}"
    and "\<forall>s\<in>set xs. space_dist s = d"
  shows "Domain_preprocess_args ys = Domain_preprocess_args xs
     \<and> (Domain_call c xs = Inr (inst, c') \<longrightarrow> Domain_call c' ys = Inr (inst, c'))
     \<and> (xs \<noteq> [] \<and> 0 < dim d \<and> (\<forall>s\<in>set xs. \<forall>a\<in>set (space_axes s). a < dim d) \<longrightarrow>
          (\<exists>i k. Domain_call c xs = Inr (i, k)))"
proof -
  have pre: "Domain_preprocess_args ys = Domain_preprocess_args xs"
    unfolding Domain_preprocess_args_def using assms(1,3) by (rule expand_spaces_perm)
  have again: "Domain_call c xs = Inr (inst, c') \<longrightarrow> Domain_call c' ys = Inr (inst, c')"
    using pre by (auto intro: Domain_call_again)
  have total: "\<exists>i k. Domain_call c xs = Inr (i, k)"
    if "xs \<noteq> []" "0 < dim d" "\<forall>s\<in>set xs. \<forall>a\<in>set (space_axes s). a < dim d"
  proof -
    from expand_spaces_returns [OF that(1) assms(2,3,4) that(3)] obtain full where
      full: "expand_spaces xs = Inr full" "length full = dim d" by blast
    with that(2) obtain s rest where "full = s # rest" by (cases full) auto
    with full show ?thesis
      by (cases "map_of c full") (simp_all add: Domain_call_def Domain_preprocess_args_def Domain_init_def)
  qed
  from pre again total show ?thesis by blast
qed


theorem Domain_order_independent_witness:
  "\<exists>sx sy inst c'.
      PeriodicInterval_init ''x'' 8 (0, 1) \<lparr>dist_id = 0, dim = 2\<rparr> 0 1 = Inr sx
    \<and> FiniteInterval_init 0 0 ''y'' 6 (- 1, 1) \<lparr>dist_id = 0, dim = 2\<rparr> 1 1 = Inr sy
    \<and> mset [sy, sx] = mset [sx, sy] \<and> distinct [sx, sy]
    \<and> set (space_axes sx) \<inter> set (space_axes sy) = {}
    \<and> space_dist sx = \<lparr>dist_id = 0, dim = 2\<rparr> \<and> space_dist sy = \<lparr>dist_id = 0, dim = 2\<rparr>
    \<and> Domain_preprocess_args [sy, sx] = Domain_preprocess_args [sx, sy]
    \<and> Domain_call [] [sx, sy] = Inr (inst, c')
    \<and> Domain_call c' [sy, sx] = Inr (inst, c')"
proof -
  let ?d = "\<lparr>dist_id = 0, dim = 2\<rparr>"
  obtain sx where sx: "PeriodicInterval_init ''x'' 8 (0, 1) ?d 0 1 = Inr sx"
    by (simp add: PeriodicInterval_init_def Interval_init_def check_shape_def
        AffineCOV_init_def Let_def)
  obtain sy where sy: "FiniteInterval_init 0 0 ''y'' 6 (- 1, 1) ?d 1 1 = Inr sy"
    by (simp add: FiniteInterval_init_def Interval_init_def check_shape_def
        AffineCOV_init_def Let_def)
  from PeriodicInterval_init_Inr [OF sx] have ax: "space_axes sx = [0]" "space_dist sx = ?d"
    by auto
  from FiniteInterval_init_Inr [OF sy] have ay: "space_axes sy = [1]" "space_dist sy = ?d"
    by auto
  from ax ay have neq: "sx \<noteq> sy" by auto
  have h1: "mset [sy, sx] = mset [sx, sy]" by simp
  have h2: "distinct [sx, sy]" using neq by simp
  have h3: "\<forall>s\<in>set [sx, sy]. \<forall>t\<in>set [sx, sy].
              s \<noteq> t \<longrightarrow> set (space_axes s) \<inter> set (space_axes t) = {}"
    using ax ay by simp
  have h4: "\<forall>s\<in>set [sx, sy]. space_dist s = ?d" using ax ay by simp
  have h5: "[sx, sy] \<noteq> [] \<and> 0 < dim ?d
            \<and> (\<forall>s\<in>set [sx, sy]. \<forall>a\<in>set (space_axes s). a < dim ?d)"
    using ax ay by simp
  from Domain_order_independent [OF h1 h2 h3 h4, of "[]" undefined undefined] h5
  obtain inst c' where first: "Domain_call [] [sx, sy] = Inr (inst, c')" by blast
  from Domain_order_independent [OF h1 h2 h3 h4, of "[]" inst c'] first
  have pre: "Domain_preprocess_args [sy, sx] = Domain_preprocess_args [sx, sy]"
    and second: "Domain_call c' [sy, sx] = Inr (inst, c')" by blast+
  from sx sy h1 h2 ax ay pre first second show ?thesis
    by (intro exI [of _ sx] exI [of _ sy] exI [of _ inst] exI [of _ c']) simp
qed

lemma find_Some_set: "find P xs = Some s \<Longrightarrow> s \<in> set xs \<and> P s"
  by (induction xs) (auto split: if_splits)

lemma unify_attributes_dist_Inr:
  "unify_attributes_dist xs = Inr d \<Longrightarrow> \<forall>s\<in>set xs. space_dist s = d"
  by (cases xs) (auto simp: unify_attributes_dist_def list_all_iff split: if_splits)

lemma expand_spaces_Inr:
  assumes "expand_spaces xs = Inr full"
  shows "\<exists>d. unify_attributes_dist xs = Inr d \<and>
           full = map (\<lambda>i. case find (\<lambda>s. i \<in> set (space_axes s)) (rev xs) of
                              Some s \<Rightarrow> s | None \<Rightarrow> Constant d [i]) [0..<dim d]"
proof -
  from assms obtain d where un: "unify_attributes_dist xs = Inr d"
    and asg: "assign_spaces xs (constant_spaces d) = Inr full"
    by (auto simp: expand_spaces_def split: sum.splits if_splits)
  have len: "length (constant_spaces d) = dim d" by (simp add: constant_spaces_def)
  from asg have "full = map (\<lambda>i. case find (\<lambda>s. i \<in> set (space_axes s)) (rev xs) of
                         Some s \<Rightarrow> s | None \<Rightarrow> constant_spaces d ! i) [0..<dim d]"
    by (simp add: assign_spaces_eq len split: if_splits)
  also have "\<dots> = map (\<lambda>i. case find (\<lambda>s. i \<in> set (space_axes s)) (rev xs) of
                              Some s \<Rightarrow> s | None \<Rightarrow> Constant d [i]) [0..<dim d]"
    by (rule map_cong) (auto simp: constant_spaces_def Constant_init_def split: option.splits)
  finally show ?thesis using un by blast
qed

lemma Domain_new_wellformed:
  assumes new: "Domain_new xs = Inr dmn"
    and one: "\<forall>s\<in>set xs. length (space_axes s) = 1 \<and> space_shape s \<noteq> []"
  shows "length (spaces dmn) = dim (dist_D dmn)
     \<and> (\<forall>(i, s)\<in>set (enumerate 0 (spaces dmn)). space_axes s \<noteq> [] \<and> hd (space_axes s) \<le> i
           \<and> i - hd (space_axes s) < length (space_group_shape s)
           \<and> i - hd (space_axes s) < length (space_shape s))"
proof -
  from new obtain full where ex: "expand_spaces xs = Inr full" and ini: "Domain_init full = Inr dmn"
    by (auto simp: Domain_new_def Domain_preprocess_args_def split: sum.splits)
  from expand_spaces_Inr [OF ex] obtain d where un: "unify_attributes_dist xs = Inr d"
    and full: "full = map (\<lambda>i. case find (\<lambda>s. i \<in> set (space_axes s)) (rev xs) of
                              Some s \<Rightarrow> s | None \<Rightarrow> Constant d [i]) [0..<dim d]"
    by blast
  from un have dist: "\<forall>s\<in>set xs. space_dist s = d"
    by (rule unify_attributes_dist_Inr)
  have len: "length full = dim d" by (simp add: full)
  have elem: "space_dist (full ! i) = d \<and> space_axes (full ! i) = [i] \<and> space_shape (full ! i) \<noteq> []"
    if "i < dim d" for i
  proof (cases "find (\<lambda>s. i \<in> set (space_axes s)) (rev xs)")
    case None
    with that show ?thesis by (simp add: full)
  next
    case (Some s)
    from find_Some_set [OF this] have s: "s \<in> set xs" "i \<in> set (space_axes s)"
      by simp_all
    with one have "length (space_axes s) = 1" "space_shape s \<noteq> []" by blast+
    with s(2) have "space_axes s = [i]" by (cases "space_axes s") auto
    with Some that s(1) dist \<open>space_shape s \<noteq> []\<close> show ?thesis by (simp add: full)
  qed
  from ini have ne: "full \<noteq> []" and dmn: "dmn = \<lparr>dist_D = space_dist (hd full), spaces = full\<rparr>"
    by (auto simp: Domain_init_def split: list.splits)
  from ne have "0 < length full" by simp
  then have pos: "0 < dim d" unfolding len .
  from ne have "hd full = full ! 0" by (rule hd_conv_nth)
  with elem [OF pos] have "space_dist (hd full) = d" by simp
  with dmn len have A: "length (spaces dmn) = dim (dist_D dmn)" by simp
  have B: "\<forall>(i, s)\<in>set (enumerate 0 (spaces dmn)). space_axes s \<noteq> [] \<and> hd (space_axes s) \<le> i
           \<and> i - hd (space_axes s) < length (space_group_shape s)
           \<and> i - hd (space_axes s) < length (space_shape s)"
  proof (intro ballI)
    fix p assume "p \<in> set (enumerate 0 (spaces dmn))"
    then have i: "fst p < dim d" and sp: "snd p = full ! fst p"
      by (auto simp: in_set_enumerate_eq dmn len)
    have gs: "0 < length (space_group_shape (snd p))" by (cases "snd p") simp_all
    from elem [OF i] sp gs
    show "case p of (i, s) \<Rightarrow> space_axes s \<noteq> [] \<and> hd (space_axes s) \<le> i
           \<and> i - hd (space_axes s) < length (space_group_shape s)
           \<and> i - hd (space_axes s) < length (space_shape s)"
      by (cases p) simp
  qed
  from A B show ?thesis by blast
qed

lemma Domain_shapes_generic:
  assumes len: "length (spaces dmn) = dim (dist_D dmn)"
    and wf: "\<forall>(i, s)\<in>set (enumerate 0 (spaces dmn)). space_axes s \<noteq> [] \<and> hd (space_axes s) \<le> i
           \<and> i - hd (space_axes s) < length (space_group_shape s)
           \<and> i - hd (space_axes s) < length (space_shape s)"
  shows "Domain_group_shape dmn
           = Inr (map (\<lambda>(i, s). space_group_shape s ! (i - hd (space_axes s)))
                   (enumerate 0 (spaces dmn)))
       \<and> Domain_global_coeff_shape dmn
           = Inr (map (\<lambda>(i, s). space_shape s ! (i - hd (space_axes s)))
                   (enumerate 0 (spaces dmn)))"
proof -
  let ?shp = "replicate (dim (dist_D dmn)) (0::int)"
  have l: "0 + length (spaces dmn) \<le> length ?shp" using len by simp
  have w1: "\<forall>(i, s)\<in>set (enumerate 0 (spaces dmn)). space_axes s \<noteq> [] \<and> hd (space_axes s) \<le> i
           \<and> i - hd (space_axes s) < length (space_group_shape s)"
    using wf by blast
  have w2: "\<forall>(i, s)\<in>set (enumerate 0 (spaces dmn)). space_axes s \<noteq> [] \<and> hd (space_axes s) \<le> i
           \<and> i - hd (space_axes s) < length (space_shape s)"
    using wf by blast
  have dr: "drop (0 + length (spaces dmn)) ?shp = []" using len by simp
  from assemble_shape_enumerate [of 0 "spaces dmn" ?shp space_group_shape, OF l w1]
  have g: "Domain_group_shape dmn
           = Inr (map (\<lambda>(i, s). space_group_shape s ! (i - hd (space_axes s)))
                   (enumerate 0 (spaces dmn)))"
    unfolding Domain_group_shape_def dr by simp
  from assemble_shape_enumerate [of 0 "spaces dmn" ?shp space_shape, OF l w2]
  have c: "Domain_global_coeff_shape dmn
           = Inr (map (\<lambda>(i, s). space_shape s ! (i - hd (space_axes s)))
                   (enumerate 0 (spaces dmn)))"
    unfolding Domain_global_coeff_shape_def dr by simp
  from g c show ?thesis by blast
qed

lemma Domain_periodic_finite:
  assumes sx: "PeriodicInterval_init nx 8 bx d 0 dlx = Inr sx"
    and sy: "FiniteInterval_init a b ny 6 bndy d 1 dly = Inr sy"
    and d: "dim d = 2"
  shows "\<exists>dmn. Domain_new [sx, sy] = Inr dmn \<and> spaces dmn = [sx, sy]
           \<and> Domain_global_coeff_shape dmn = Inr [8, 6]
           \<and> Domain_group_shape dmn = Inr [2, 1]"
proof -
  from PeriodicInterval_init_Inr [OF sx] obtain ivx k where
    x: "sx = PeriodicInterval ivx k" "axes ivx = [0]" "dist_I ivx = d" "shape ivx = [8]"
    by auto
  from FiniteInterval_init_Inr [OF sy] obtain ivy where
    y: "sy = FiniteInterval ivy a b" "axes ivy = [1]" "dist_I ivy = d" "shape ivy = [6]"
    by auto
  let ?dmn = "\<lparr>dist_D = d, spaces = [sx, sy]\<rparr>"
  have new: "Domain_new [sx, sy] = Inr ?dmn"
    using d by (simp add: Domain_new_def Domain_preprocess_args_def expand_spaces_def
        unify_attributes_dist_def constant_spaces_2 Domain_init_def x y)
  have len: "length (spaces ?dmn) = dim (dist_D ?dmn)" using d by simp
  have wf: "\<forall>(i, s)\<in>set (enumerate 0 (spaces ?dmn)). space_axes s \<noteq> [] \<and> hd (space_axes s) \<le> i
           \<and> i - hd (space_axes s) < length (space_group_shape s)
           \<and> i - hd (space_axes s) < length (space_shape s)"
    by (simp add: x y)
  from Domain_shapes_generic [OF len wf]
  have "Domain_global_coeff_shape ?dmn = Inr [8, 6]" "Domain_group_shape ?dmn = Inr [2, 1]"
    by (simp_all add: x y)
  with new show ?thesis by (intro exI [of _ ?dmn]) simp
qed

text \<open>
  C9. \<^verbatim>\<open>Domain.group_shape\<close> and \<^verbatim>\<open>Domain.global_coeff_shape\<close> hold, for each axis \<open>i\<close> with
  its space \<open>s\<close>, the entry of the group shape (of the shape) of \<open>s\<close> at the offset
  \<open>i - s.axes[0]\<close>: for every domain with one space per axis of its distributor in which
  each offset is an index of the two tuples, and so for every domain that \<^verbatim>\<open>Domain\<close>
  builds from single-axis spaces. The domain of a PeriodicInterval of size 8 on axis 0 and
  a FiniteInterval of size 6 on axis 1 over a two-axis distributor has
  \<^verbatim>\<open>global_coeff_shape\<close> \<open>(8, 6)\<close> and \<^verbatim>\<open>group_shape\<close> \<open>(2, 1)\<close>.
\<close>

theorem Domain_shapes_by_axis_offset:
  "(length (spaces dmn) = dim (dist_D dmn)
      \<and> (\<forall>(i, s)\<in>set (enumerate 0 (spaces dmn)). space_axes s \<noteq> [] \<and> hd (space_axes s) \<le> i
           \<and> i - hd (space_axes s) < length (space_group_shape s)
           \<and> i - hd (space_axes s) < length (space_shape s))
     \<longrightarrow> Domain_group_shape dmn
           = Inr (map (\<lambda>(i, s). space_group_shape s ! (i - hd (space_axes s)))
                   (enumerate 0 (spaces dmn)))
       \<and> Domain_global_coeff_shape dmn
           = Inr (map (\<lambda>(i, s). space_shape s ! (i - hd (space_axes s)))
                   (enumerate 0 (spaces dmn))))
   \<and> (Domain_new xs = Inr dmn'
      \<and> (\<forall>s\<in>set xs. length (space_axes s) = 1 \<and> space_shape s \<noteq> [])
     \<longrightarrow> Domain_group_shape dmn'
           = Inr (map (\<lambda>(i, s). space_group_shape s ! (i - hd (space_axes s)))
                   (enumerate 0 (spaces dmn')))
       \<and> Domain_global_coeff_shape dmn'
           = Inr (map (\<lambda>(i, s). space_shape s ! (i - hd (space_axes s)))
                   (enumerate 0 (spaces dmn'))))
   \<and> (PeriodicInterval_init nx 8 bx d 0 dlx = Inr sx
      \<and> FiniteInterval_init a b ny 6 bndy d 1 dly = Inr sy \<and> dim d = 2
     \<longrightarrow> (\<exists>dm. Domain_new [sx, sy] = Inr dm \<and> spaces dm = [sx, sy]
           \<and> Domain_global_coeff_shape dm = Inr [8, 6]
           \<and> Domain_group_shape dm = Inr [2, 1]))"
proof (intro conjI impI)
  assume h: "length (spaces dmn) = dim (dist_D dmn)
      \<and> (\<forall>(i, s)\<in>set (enumerate 0 (spaces dmn)). space_axes s \<noteq> [] \<and> hd (space_axes s) \<le> i
           \<and> i - hd (space_axes s) < length (space_group_shape s)
           \<and> i - hd (space_axes s) < length (space_shape s))"
  from Domain_shapes_generic [OF conjunct1 [OF h] conjunct2 [OF h]]
  show "Domain_group_shape dmn
           = Inr (map (\<lambda>(i, s). space_group_shape s ! (i - hd (space_axes s)))
                   (enumerate 0 (spaces dmn)))"
    and "Domain_global_coeff_shape dmn
           = Inr (map (\<lambda>(i, s). space_shape s ! (i - hd (space_axes s)))
                   (enumerate 0 (spaces dmn)))"
    by blast+
next
  assume h: "Domain_new xs = Inr dmn'
      \<and> (\<forall>s\<in>set xs. length (space_axes s) = 1 \<and> space_shape s \<noteq> [])"
  note wf = Domain_new_wellformed [OF conjunct1 [OF h] conjunct2 [OF h]]
  from Domain_shapes_generic [OF conjunct1 [OF wf] conjunct2 [OF wf]]
  show "Domain_group_shape dmn'
           = Inr (map (\<lambda>(i, s). space_group_shape s ! (i - hd (space_axes s)))
                   (enumerate 0 (spaces dmn')))"
    and "Domain_global_coeff_shape dmn'
           = Inr (map (\<lambda>(i, s). space_shape s ! (i - hd (space_axes s)))
                   (enumerate 0 (spaces dmn')))"
    by blast+
next
  assume "PeriodicInterval_init nx 8 bx d 0 dlx = Inr sx
      \<and> FiniteInterval_init a b ny 6 bndy d 1 dly = Inr sy \<and> dim d = 2"
  then show "\<exists>dm. Domain_new [sx, sy] = Inr dm \<and> spaces dm = [sx, sy]
           \<and> Domain_global_coeff_shape dm = Inr [8, 6]
           \<and> Domain_group_shape dm = Inr [2, 1]"
    using Domain_periodic_finite [of nx bx d dlx sx a b ny bndy dly sy] by blast
qed


theorem Domain_shapes_by_axis_offset_witness:
  "\<exists>sx sy dm.
      PeriodicInterval_init ''x'' 8 (0, 1) \<lparr>dist_id = 0, dim = 2\<rparr> 0 1 = Inr sx
    \<and> FiniteInterval_init 0 0 ''y'' 6 (- 1, 1) \<lparr>dist_id = 0, dim = 2\<rparr> 1 1 = Inr sy
    \<and> dim \<lparr>dist_id = 0, dim = 2\<rparr> = 2
    \<and> Domain_new [sx, sy] = Inr dm \<and> spaces dm = [sx, sy]
    \<and> length (spaces dm) = dim (dist_D dm)
    \<and> space_axes sx = [0] \<and> space_axes sy = [1]
    \<and> space_group_shape sx = [2] \<and> space_group_shape sy = [1]
    \<and> space_shape sx = [8] \<and> space_shape sy = [6]
    \<and> Domain_global_coeff_shape dm = Inr [8, 6]
    \<and> Domain_group_shape dm = Inr [2, 1]
    \<and> Domain_group_shape dm
          = Inr (map (\<lambda>(i, s). space_group_shape s ! (i - hd (space_axes s)))
                  (enumerate 0 (spaces dm)))
    \<and> Domain_global_coeff_shape dm
          = Inr (map (\<lambda>(i, s). space_shape s ! (i - hd (space_axes s)))
                  (enumerate 0 (spaces dm)))"
proof -
  let ?d = "\<lparr>dist_id = 0, dim = 2\<rparr>"
  obtain sx where sx: "PeriodicInterval_init ''x'' 8 (0, 1) ?d 0 1 = Inr sx"
    by (simp add: PeriodicInterval_init_def Interval_init_def check_shape_def
        AffineCOV_init_def Let_def)
  obtain sy where sy: "FiniteInterval_init 0 0 ''y'' 6 (- 1, 1) ?d 1 1 = Inr sy"
    by (simp add: FiniteInterval_init_def Interval_init_def check_shape_def
        AffineCOV_init_def Let_def)
  have d: "dim ?d = 2" by simp
  from PeriodicInterval_init_Inr [OF sx]
  have ax: "space_axes sx = [0]" "space_group_shape sx = [2]" "space_shape sx = [8]"
    by auto
  from FiniteInterval_init_Inr [OF sy]
  have ay: "space_axes sy = [1]" "space_group_shape sy = [1]" "space_shape sy = [6]"
    by auto
  from Domain_shapes_by_axis_offset
    [of undefined "[]" undefined "''x''" "(0, 1)" ?d 1 sx 0 0 "''y''" "(- 1, 1)" 1 sy] sx sy d
  obtain dm where dm: "Domain_new [sx, sy] = Inr dm" "spaces dm = [sx, sy]"
    "Domain_global_coeff_shape dm = Inr [8, 6]" "Domain_group_shape dm = Inr [2, 1]"
    by blast
  have one: "\<forall>s\<in>set [sx, sy]. length (space_axes s) = 1 \<and> space_shape s \<noteq> []"
    using ax ay by simp
  from Domain_new_wellformed [OF dm(1) one]
  have len: "length (spaces dm) = dim (dist_D dm)"
    and wf: "\<forall>(i, s)\<in>set (enumerate 0 (spaces dm)). space_axes s \<noteq> [] \<and> hd (space_axes s) \<le> i
           \<and> i - hd (space_axes s) < length (space_group_shape s)
           \<and> i - hd (space_axes s) < length (space_shape s)"
    by blast+
  from Domain_shapes_by_axis_offset
    [of dm "[sx, sy]" dm "''x''" "(0, 1)" ?d 1 sx 0 0 "''y''" "(- 1, 1)" 1 sy] len wf
  have f: "Domain_group_shape dm
          = Inr (map (\<lambda>(i, s). space_group_shape s ! (i - hd (space_axes s)))
                  (enumerate 0 (spaces dm)))"
    "Domain_global_coeff_shape dm
          = Inr (map (\<lambda>(i, s). space_shape s ! (i - hd (space_axes s)))
                  (enumerate 0 (spaces dm)))"
    by blast+
  from sx sy d dm len ax ay f show ?thesis
    by (intro exI [of _ sx] exI [of _ sy] exI [of _ dm] conjI) (simp_all only:)
qed

end
